theory Spec2Isabelle
  imports Main "HOL-Library.Word" "HOL-Library.AList"
begin

section \<open>Bytes, exceptions and the file on disk\<close>

text \<open>
  The patching engine of the repository lives in \<^verbatim>\<open>core/patcher.py\<close> (class
  \<^verbatim>\<open>BinaryPatcher\<close>) and the detection scan in \<^verbatim>\<open>file_manager/backup.py\<close>
  (\<^verbatim>\<open>BackupManager.detect_current_patch\<close>). An element of a Python
  \<^verbatim>\<open>bytes\<close>/\<^verbatim>\<open>bytearray\<close> is an integer in 0..255: an 8-bit word here. Python
  integers are unbounded: \<open>int\<close>.
\<close>

type_synonym byte = "8 word"

text \<open>
  The exceptions that reach a caller. \<^verbatim>\<open>OSError\<close> stands for every error of the
  operating system (a missing file, a refused permission, a full device).
  \<^verbatim>\<open>PatchError p e\<close> is the exception \<^verbatim>\<open>PatchError(f"{p}: {e}")\<close> that
  \<^verbatim>\<open>patch_executable\<close> raises from a caught exception \<^verbatim>\<open>e\<close>: its message is the
  text \<^verbatim>\<open>p\<close>, a colon, a blank and the message of \<^verbatim>\<open>e\<close>.
\<close>

datatype error =
    OSError
  | OverflowError
  | ValueError
  | IndexError
  | PatchError string error

text \<open>
  The one path a call works on, as the operating system presents it to
  \<^verbatim>\<open>Path.exists\<close>, \<^verbatim>\<open>Path.read_bytes\<close> and \<^verbatim>\<open>Path.write_bytes\<close>:
  \<^item> \<open>reachable\<close>: the path can be looked up. It is false when \<^verbatim>\<open>os.stat\<close> fails with
    an error other than the four that mean "not there" (\<^verbatim>\<open>ENOENT\<close>, \<^verbatim>\<open>ENOTDIR\<close>,
    \<^verbatim>\<open>EBADF\<close>, \<^verbatim>\<open>ELOOP\<close>), for instance \<^verbatim>\<open>EACCES\<close> on a directory that may not be
    searched; then the file can be neither read nor written;
  \<^item> \<open>present\<close>: a file is there;
  \<^item> \<open>can_read\<close>, \<open>can_write\<close>: it can be opened for reading, for writing;
  \<^item> \<open>room\<close>: how many bytes the device accepts for this file, \<open>None\<close> when there is
    no limit;
  \<^item> \<open>content\<close>: its bytes.
\<close>

record disk_file =
  reachable :: bool
  present :: bool
  can_read :: bool
  can_write :: bool
  room :: "nat option"
  content :: "byte list"

text \<open>\<^verbatim>\<open>Path.exists()\<close>: \<^verbatim>\<open>False\<close> for the four errors that mean "not there"; any
  other \<^verbatim>\<open>OSError\<close> of \<^verbatim>\<open>os.stat\<close> is raised again.\<close>

definition path_exists :: "disk_file \<Rightarrow> error + bool" where
  "path_exists f = (if reachable f then Inr (present f) else Inl OSError)"

definition read_bytes :: "disk_file \<Rightarrow> error + byte list" where
  "read_bytes f =
     (if reachable f \<and> present f \<and> can_read f then Inr (content f) else Inl OSError)"

text \<open>
  \<^verbatim>\<open>Path.write_bytes(data)\<close> opens the file in mode \<^verbatim>\<open>wb\<close>, which creates or empties
  it, and writes. When the file cannot be opened nothing changes; when the device
  accepts fewer bytes than \<^verbatim>\<open>data\<close> has, the file is left with the bytes that went
  through. The result is the exception, if any, and the file as the call leaves it.
\<close>

definition write_bytes :: "disk_file \<Rightarrow> byte list \<Rightarrow> (error + unit) \<times> disk_file" where
  "write_bytes f d =
     (if \<not> (reachable f \<and> can_write f) then (Inl OSError, f)
      else (case room f of
              None \<Rightarrow> (Inr (), f\<lparr>present := True, content := d\<rparr>)
            | Some n \<Rightarrow>
                if length d \<le> n then (Inr (), f\<lparr>present := True, content := d\<rparr>)
                else (Inl OSError, f\<lparr>present := True, content := take n d\<rparr>)))"

section \<open>Python built-ins used by the engine\<close>

text \<open>\<^verbatim>\<open>pattern.split(' ')\<close>: cut at every single space; two spaces in a row give an
  empty piece, and the empty string gives one empty piece.\<close>

fun split_space :: "string \<Rightarrow> string list" where
  "split_space [] = [[]]"
| "split_space (c # cs) =
     (if c = CHR '' '' then [] # split_space cs
      else (case split_space cs of
              [] \<Rightarrow> [[c]]
            | t # ts \<Rightarrow> (c # t) # ts))"

text \<open>
  \<^verbatim>\<open>int(pattern_byte, 16)\<close> on a piece made of hexadecimal digits only (either
  case); the empty piece raises \<^verbatim>\<open>ValueError\<close>. Python's \<^verbatim>\<open>int\<close> also accepts a
  sign, a \<^verbatim>\<open>0x\<close> prefix, underscores and surrounding blanks: such pieces are no
  byte matchers and are taken as \<^verbatim>\<open>ValueError\<close> here.
\<close>

definition hex_digit :: "char \<Rightarrow> int option" where
  "hex_digit c =
     (let n = (of_char c :: nat) in
      if 48 \<le> n \<and> n \<le> 57 then Some (int n - 48)
      else if 65 \<le> n \<and> n \<le> 70 then Some (int n - 55)
      else if 97 \<le> n \<and> n \<le> 102 then Some (int n - 87)
      else None)"

fun hex_digits :: "string \<Rightarrow> int \<Rightarrow> int option" where
  "hex_digits [] acc = Some acc"
| "hex_digits (c # cs) acc =
     (case hex_digit c of
        None \<Rightarrow> None
      | Some d \<Rightarrow> hex_digits cs (16 * acc + d))"

definition int_base16 :: "string \<Rightarrow> error + int" where
  "int_base16 s =
     (if s = [] then Inl ValueError
      else (case hex_digits s 0 of None \<Rightarrow> Inl ValueError | Some v \<Rightarrow> Inr v))"

text \<open>\<^verbatim>\<open>raid_index.to_bytes(4, byteorder='little')\<close>: \<^verbatim>\<open>OverflowError\<close> on a negative
  integer and on one that does not fit in four bytes.\<close>

definition to_bytes4 :: "int \<Rightarrow> error + byte list" where
  "to_bytes4 n =
     (if n < 0 \<or> 2 ^ 32 \<le> n then Inl OverflowError
      else Inr [word_of_int (n mod 256),
                word_of_int (n div 256 mod 256),
                word_of_int (n div 65536 mod 256),
                word_of_int (n div 16777216 mod 256)])"

text \<open>\<^verbatim>\<open>int.from_bytes(raid_bytes, byteorder='little')\<close>.\<close>

fun from_bytes_le :: "byte list \<Rightarrow> int" where
  "from_bytes_le [] = 0"
| "from_bytes_le (b # bs) = uint b + 256 * from_bytes_le bs"

text \<open>\<^verbatim>\<open>needle in haystack\<close> on byte strings: the needle occurs as a contiguous
  run.\<close>

fun bytes_contains :: "byte list \<Rightarrow> byte list \<Rightarrow> bool" where
  "bytes_contains xs [] = (xs = [])"
| "bytes_contains xs (y # ys) =
     (take (length xs) (y # ys) = xs \<or> bytes_contains xs ys)"

section \<open>\<^verbatim>\<open>BinaryPatcher.replace_pattern\<close>\<close>

text \<open>
  The inner loop \<^verbatim>\<open>for j, pattern_byte in enumerate(pattern_bytes)\<close> at offset
  \<open>i\<close>, started at index \<open>j\<close>: the value of \<^verbatim>\<open>found\<close> when the loop ends, or the
  exception it raises. A piece is only converted when the loop reaches it.
\<close>

fun match_at :: "byte list \<Rightarrow> nat \<Rightarrow> string list \<Rightarrow> nat \<Rightarrow> error + bool" where
  "match_at exe_data i [] j = Inr True"
| "match_at exe_data i (pattern_byte # rest) j =
     (if pattern_byte = ''??'' then match_at exe_data i rest (Suc j)
      else (case int_base16 pattern_byte of
              Inl e \<Rightarrow> Inl e
            | Inr v \<Rightarrow>
                if length exe_data \<le> i + j then Inl IndexError
                else if v \<noteq> uint (exe_data ! (i + j)) then Inr False
                else match_at exe_data i rest (Suc j)))"

text \<open>\<^verbatim>\<open>exe_data[i:i + len(new_bytes)] = new_bytes\<close>: the slice is cut at the end
  of the buffer and replaced by all of \<^verbatim>\<open>new_bytes\<close>.\<close>

definition assign_slice :: "byte list \<Rightarrow> nat \<Rightarrow> byte list \<Rightarrow> byte list" where
  "assign_slice exe_data i new_bytes =
     take i exe_data @ new_bytes @ drop (i + length new_bytes) exe_data"

text \<open>The outer loop over the offsets of \<^verbatim>\<open>range(...)\<close>; the result is what the
  call returns or raises, with the buffer as the call leaves it.\<close>

fun scan :: "byte list \<Rightarrow> string list \<Rightarrow> byte list \<Rightarrow> nat list \<Rightarrow> (error + int) \<times> byte list" where
  "scan exe_data pattern_bytes new_bytes [] = (Inr (- 1), exe_data)"
| "scan exe_data pattern_bytes new_bytes (i # others) =
     (case match_at exe_data i pattern_bytes 0 of
        Inl e \<Rightarrow> (Inl e, exe_data)
      | Inr found \<Rightarrow>
          if found then (Inr (int i), assign_slice exe_data i new_bytes)
          else scan exe_data pattern_bytes new_bytes others)"

definition replace_pattern :: "byte list \<Rightarrow> string \<Rightarrow> byte list \<Rightarrow> (error + int) \<times> byte list" where
  "replace_pattern exe_data pattern new_bytes =
     (let pattern_bytes = split_space pattern;
          pattern_len = length pattern_bytes
      in scan exe_data pattern_bytes new_bytes
           [0 ..< nat (int (length exe_data) - int pattern_len + 1)])"

section \<open>\<^verbatim>\<open>BinaryPatcher.create_raid_patches\<close>\<close>

type_synonym patch = "string \<times> string \<times> byte list"

definition create_raid_patches :: "int \<Rightarrow> error + patch list" where
  "create_raid_patches raid_index =
     (case to_bytes4 raid_index of
        Inl e \<Rightarrow> Inl e
      | Inr raid_bytes \<Rightarrow>
          Inr [(''get_raid'', ''8B 81 C4 53 1D 00'', [0xB8] @ raid_bytes @ [0x90]),
               (''set_raid'', ''66 0F 73 DA 08 66 41 0F 7E 50 04 F2 0F 11 4C'',
                  [0x41, 0xC7, 0x40, 0x04] @ raid_bytes @ [0x90, 0x90, 0x90]),
               (''raid_status'', ''83 78 10 02 74 10'', [0x39, 0xC0, 0x90, 0x90])])"

section \<open>\<^verbatim>\<open>BinaryPatcher.patch_executable\<close>\<close>

record results =
  success :: bool
  offsets :: "(string \<times> int) list"
  errors :: "string list"

text \<open>The loop \<^verbatim>\<open>for patch_name, (pattern, replacement) in patches.items()\<close>, on
  the buffer and the result dictionary. An exception of \<^verbatim>\<open>replace_pattern\<close> is
  not caught.\<close>

fun apply_patches :: "patch list \<Rightarrow> byte list \<Rightarrow> results \<Rightarrow> error + (byte list \<times> results)" where
  "apply_patches [] exe_data res = Inr (exe_data, res)"
| "apply_patches ((patch_name, pattern, replacement) # others) exe_data res =
     (case replace_pattern exe_data pattern replacement of
        (Inl e, exe_data') \<Rightarrow> Inl e
      | (Inr offset, exe_data') \<Rightarrow>
          if offset < 0 then
            apply_patches others exe_data'
              (res\<lparr>success := False,
                   errors := errors res @ [patch_name @ '' pattern scan failed'']\<rparr>)
          else
            apply_patches others exe_data'
              (res\<lparr>offsets := AList.update patch_name offset (offsets res)\<rparr>))"

text \<open>The whole call: what it returns or raises, and the file as it leaves it.\<close>

definition patch_executable :: "disk_file \<Rightarrow> int \<Rightarrow> (error + results) \<times> disk_file" where
  "patch_executable exe_path raid_index =
     (case read_bytes exe_path of
        Inl e \<Rightarrow> (Inl (PatchError ''Cannot read executable'' e), exe_path)
      | Inr exe_data \<Rightarrow>
          (case create_raid_patches raid_index of
             Inl e \<Rightarrow> (Inl e, exe_path)
           | Inr patches \<Rightarrow>
               (case apply_patches patches exe_data
                       \<lparr>success = True, offsets = [], errors = []\<rparr> of
                  Inl e \<Rightarrow> (Inl e, exe_path)
                | Inr (patched, res) \<Rightarrow>
                    if success res then
                      (case write_bytes exe_path patched of
                         (Inl e, left) \<Rightarrow> (Inl (PatchError ''Cannot write executable'' e), left)
                       | (Inr u, written) \<Rightarrow> (Inr res, written))
                    else (Inr res, exe_path))))"

section \<open>\<^verbatim>\<open>BinaryPatcher.verify_patch\<close> and \<^verbatim>\<open>BackupManager.detect_current_patch\<close>\<close>

text \<open>The body of the \<^verbatim>\<open>try\<close> block of \<^verbatim>\<open>verify_patch\<close>, and the function with
  its \<^verbatim>\<open>except Exception\<close>.\<close>

definition verify_body :: "disk_file \<Rightarrow> int \<Rightarrow> error + bool" where
  "verify_body exe_path raid_index =
     (case read_bytes exe_path of
        Inl e \<Rightarrow> Inl e
      | Inr exe_data \<Rightarrow>
          (case to_bytes4 raid_index of
             Inl e \<Rightarrow> Inl e
           | Inr raid_bytes \<Rightarrow>
               Inr (bytes_contains ([0xB8] @ raid_bytes @ [0x90]) exe_data)))"

definition verify_patch :: "disk_file \<Rightarrow> int \<Rightarrow> bool" where
  "verify_patch exe_path raid_index =
     (case verify_body exe_path raid_index of Inl e \<Rightarrow> False | Inr b \<Rightarrow> b)"

text \<open>The loop \<^verbatim>\<open>for i in range(len(exe_data) - 5)\<close> of \<^verbatim>\<open>detect_current_patch\<close>;
  \<^verbatim>\<open>and\<close> reads \<^verbatim>\<open>exe_data[i + 5]\<close> only when the first comparison holds.\<close>

fun detect_loop :: "byte list \<Rightarrow> nat list \<Rightarrow> error + int option" where
  "detect_loop exe_data [] = Inr None"
| "detect_loop exe_data (i # others) =
     (if length exe_data \<le> i then Inl IndexError
      else if exe_data ! i = 0xB8 then
        (if length exe_data \<le> i + 5 then Inl IndexError
         else if exe_data ! (i + 5) = 0x90 then
           (let raid_bytes = take 4 (drop (i + 1) exe_data);
                raid_index = from_bytes_le raid_bytes
            in if 1 \<le> raid_index \<and> raid_index \<le> 38 then Inr (Some raid_index)
               else detect_loop exe_data others)
         else detect_loop exe_data others)
      else detect_loop exe_data others)"

definition detect_body :: "disk_file \<Rightarrow> error + int option" where
  "detect_body patched_exe =
     (case read_bytes patched_exe of
        Inl e \<Rightarrow> Inl e
      | Inr exe_data \<Rightarrow>
          detect_loop exe_data [0 ..< nat (int (length exe_data) - 5)])"

text \<open>The function: \<^verbatim>\<open>patched_exe.exists()\<close> is called before the \<^verbatim>\<open>try\<close> block, so
  what it raises is not caught; what the body raises is.\<close>

definition detect_current_patch :: "disk_file \<Rightarrow> error + int option" where
  "detect_current_patch patched_exe =
     (case path_exists patched_exe of
        Inl e \<Rightarrow> Inl e
      | Inr there \<Rightarrow>
          if \<not> there then Inr None
          else (case detect_body patched_exe of Inl e \<Rightarrow> Inr None | Inr r \<Rightarrow> Inr r))"

section \<open>What the matcher is meant to find\<close>

text \<open>
  A matcher is a piece of the pattern: the wildcard \<^verbatim>\<open>??\<close> or the hexadecimal
  writing of a value. It accepts a byte when it is the wildcard or when its value is
  the byte. A pattern matches at offset \<open>i\<close> when each matcher accepts the byte at
  the same place of the window that starts at \<open>i\<close>.
\<close>

definition is_matcher :: "string \<Rightarrow> bool" where
  "is_matcher m = (m = ''??'' \<or> (case int_base16 m of Inl e \<Rightarrow> False | Inr v \<Rightarrow> True))"

definition matcher_accepts :: "string \<Rightarrow> byte \<Rightarrow> bool" where
  "matcher_accepts m b = (m = ''??'' \<or> int_base16 m = Inr (uint b))"

definition matches_window :: "byte list \<Rightarrow> string list \<Rightarrow> nat \<Rightarrow> bool" where
  "matches_window exe_data ms i =
     list_all2 matcher_accepts ms (take (length ms) (drop i exe_data))"

text \<open>
  The leftmost offset at which a pattern matches a buffer, among the offsets whose
  window lies inside the buffer, and the buffer with the replacement written at that
  offset (the buffer itself when the pattern matches nowhere).
\<close>

definition first_match :: "byte list \<Rightarrow> string \<Rightarrow> nat option" where
  "first_match exe_data pattern =
     find (matches_window exe_data (split_space pattern))
       [0 ..< length exe_data + 1 - length (split_space pattern)]"

definition patch_once :: "byte list \<Rightarrow> string \<Rightarrow> byte list \<Rightarrow> byte list" where
  "patch_once exe_data pattern new_bytes =
     (case first_match exe_data pattern of
        None \<Rightarrow> exe_data
      | Some i \<Rightarrow> assign_slice exe_data i new_bytes)"

text \<open>
  The value that the six bytes at offset \<open>i\<close> hold between their first and their last
  byte, read little-endian, and the windows that the detection scan accepts: the
  instruction \<^verbatim>\<open>B8 v v v v 90\<close> with a value from 1 to 38.
\<close>

definition window_value :: "byte list \<Rightarrow> nat \<Rightarrow> int" where
  "window_value exe_data i = from_bytes_le (take 4 (drop (i + 1) exe_data))"

definition marked :: "byte list \<Rightarrow> nat \<Rightarrow> bool" where
  "marked exe_data i =
     (exe_data ! i = 0xB8 \<and> exe_data ! (i + 5) = 0x90 \<and>
      1 \<le> window_value exe_data i \<and> window_value exe_data i \<le> 38)"

section \<open>Files used as examples\<close>

text \<open>A file that is there and can be read and written without limit, a path that
  cannot be looked up, and an executable image that holds nothing but the three
  original instruction sequences, one after the other.\<close>

definition on_disk :: "byte list \<Rightarrow> disk_file" where
  "on_disk d =
     \<lparr>reachable = True, present = True, can_read = True, can_write = True, room = None,
      content = d\<rparr>"


definition clean_exe :: "byte list" where
  "clean_exe =
     [0x8B, 0x81, 0xC4, 0x53, 0x1D, 0x00,
      0x66, 0x0F, 0x73, 0xDA, 0x08, 0x66, 0x41, 0x0F, 0x7E, 0x50, 0x04, 0xF2, 0x0F, 0x11, 0x4C,
      0x83, 0x78, 0x10, 0x02, 0x74, 0x10]"

section \<open>The scan of \<^verbatim>\<open>replace_pattern\<close>\<close>

lemma split_space_nonempty: "split_space s \<noteq> []"
  by (induction s) (auto split: list.splits)

lemma window_step:
  "k < length B \<Longrightarrow> take (Suc n) (drop k B) = B ! k # take n (drop (Suc k) B)"
  by (simp add: Cons_nth_drop_Suc [symmetric])

lemma matcher_accepts_wild: "matcher_accepts ''??'' b"
  by (simp add: matcher_accepts_def)

lemma matcher_accepts_exact:
  "m \<noteq> ''??'' \<Longrightarrow> matcher_accepts m b = (int_base16 m = Inr (uint b))"
  by (simp add: matcher_accepts_def)

lemma match_at_correct:
  "list_all is_matcher ms \<Longrightarrow> i + j + length ms \<le> length B \<Longrightarrow>
   match_at B i ms j = Inr (list_all2 matcher_accepts ms (take (length ms) (drop (i + j) B)))"
proof (induction ms arbitrary: j)
  case Nil
  then show ?case by simp
next
  case (Cons m ms)
  have lt: "i + j < length B" using Cons.prems(2) by simp
  have ih: "match_at B i ms (Suc j) =
            Inr (list_all2 matcher_accepts ms (take (length ms) (drop (i + Suc j) B)))"
    using Cons.prems by (intro Cons.IH) auto
  have w: "take (length (m # ms)) (drop (i + j) B)
           = B ! (i + j) # take (length ms) (drop (i + Suc j) B)"
    using window_step [OF lt, of "length ms"] by simp
  show ?case
  proof (cases "m = ''??''")
    case True
    then show ?thesis using ih w by (simp add: matcher_accepts_wild)
  next
    case False
    with Cons.prems(1) obtain v where v: "int_base16 m = Inr v"
      by (auto simp: is_matcher_def split: sum.splits)
    show ?thesis using False v lt ih w
      by (auto simp: matcher_accepts_exact)
  qed
qed

lemma match_at_window:
  "list_all is_matcher ms \<Longrightarrow> i + length ms \<le> length B \<Longrightarrow>
   match_at B i ms 0 = Inr (matches_window B ms i)"
  using match_at_correct [of ms i 0 B] by (simp add: matches_window_def)

lemma scan_find:
  "list_all is_matcher ms \<Longrightarrow> \<forall>i\<in>set offs. i + length ms \<le> length B \<Longrightarrow>
   scan B ms R offs =
     (case find (matches_window B ms) offs of
        None \<Rightarrow> (Inr (- 1), B)
      | Some i \<Rightarrow> (Inr (int i), assign_slice B i R))"
  by (induction offs) (simp_all add: match_at_window)

lemma scan_cases:
  "scan B ms R offs = (r, B') \<Longrightarrow>
   (B' = B \<and> (r = Inr (- 1) \<or> (\<exists>e. r = Inl e))) \<or>
   (\<exists>i\<in>set offs. r = Inr (int i) \<and> match_at B i ms 0 = Inr True \<and> B' = assign_slice B i R)"
  by (induction offs) (auto split: sum.splits if_splits)

lemma range_offsets:
  "i \<in> set [0 ..< nat (int (length B) - int (length (split_space P)) + 1)] \<Longrightarrow>
   i + length (split_space P) \<le> length B \<and> i < length B"
  using split_space_nonempty [of P] by (cases "split_space P") auto

lemma replace_pattern_cases:
  assumes "replace_pattern B P R = (r, B')"
  shows "(B' = B \<and> (r = Inr (- 1) \<or> (\<exists>e. r = Inl e))) \<or>
         (\<exists>i. i + length (split_space P) \<le> length B \<and> i < length B \<and> r = Inr (int i) \<and>
              match_at B i (split_space P) 0 = Inr True \<and> B' = assign_slice B i R)"
proof -
  let ?offs = "[0 ..< nat (int (length B) - int (length (split_space P)) + 1)]"
  have "scan B (split_space P) R ?offs = (r, B')"
    using assms by (simp add: replace_pattern_def Let_def)
  from scan_cases [OF this] range_offsets [of _ B P] show ?thesis by blast
qed

lemma assign_slice_frame:
  assumes "i \<le> length B"
  shows "take i (assign_slice B i R) = take i B"
    and "take (length R) (drop i (assign_slice B i R)) = R"
    and "drop (i + length R) (assign_slice B i R) = drop (i + length R) B"
    and "length (assign_slice B i R) = max (length B) (i + length R)"
  using assms by (auto simp: assign_slice_def min_def max_def)

lemma assign_slice_nth:
  assumes "i \<le> length B"
  shows "k < i \<Longrightarrow> assign_slice B i R ! k = B ! k"
    and "k < length R \<Longrightarrow> assign_slice B i R ! (i + k) = R ! k"
    and "i + length R \<le> k \<Longrightarrow> k < length B \<Longrightarrow> assign_slice B i R ! k = B ! k"
  using assms by (auto simp: assign_slice_def nth_append min_def)

lemma find_upt_Some:
  assumes "find Q [0 ..< n] = Some i"
  shows "i < n \<and> Q i \<and> (\<forall>k<i. \<not> Q k)"
proof -
  from assms obtain j where j: "j < length [0 ..< n]" "Q ([0 ..< n] ! j)"
      "i = [0 ..< n] ! j" "\<forall>k<j. \<not> Q ([0 ..< n] ! k)"
    unfolding find_Some_iff by blast
  have jn: "j < n" using j(1) by simp
  then have ij: "i = j" using j(3) by simp
  have "\<not> Q k" if "k < i" for k
  proof -
    have "k < j" "k < n" using that ij jn by simp_all
    then show ?thesis using j(4) by fastforce
  qed
  then show ?thesis using jn ij j(2) by simp
qed

lemma find_upt_None: "find Q [0 ..< n] = None \<Longrightarrow> i < n \<Longrightarrow> \<not> Q i"
  unfolding find_None_iff by simp

text \<open>
  Claim C1. For a pattern whose pieces are all matchers and that is no longer than the
  buffer, \<^verbatim>\<open>replace_pattern\<close> returns the smallest offset \<open>i\<close> with
  \<open>i + N \<le> len(B)\<close> at which every matcher accepts the byte under it (a wildcard
  accepts any byte), and \<open>-1\<close> when there is no such offset.
\<close>

theorem replace_pattern_leftmost:
  assumes "list_all is_matcher (split_space P)"
    and "length (split_space P) \<le> length B"
  shows "(\<exists>i. i + length (split_space P) \<le> length B \<and>
              matches_window B (split_space P) i \<and>
              (\<forall>k<i. \<not> matches_window B (split_space P) k) \<and>
              fst (replace_pattern B P R) = Inr (int i)) \<or>
         ((\<forall>i. i + length (split_space P) \<le> length B \<longrightarrow> \<not> matches_window B (split_space P) i) \<and>
          fst (replace_pattern B P R) = Inr (- 1))"
proof -
  let ?ms = "split_space P"
  define n where "n = nat (int (length B) - int (length ?ms) + 1)"
  have n: "i < n \<longleftrightarrow> i + length ?ms \<le> length B" for i
    using assms(2) by (auto simp: n_def)
  have inside: "\<forall>i\<in>set [0 ..< n]. i + length ?ms \<le> length B"
    using n by simp
  have run: "replace_pattern B P R =
               (case find (matches_window B ?ms) [0 ..< n] of
                  None \<Rightarrow> (Inr (- 1), B)
                | Some i \<Rightarrow> (Inr (int i), assign_slice B i R))"
    unfolding replace_pattern_def Let_def n_def [symmetric]
    by (rule scan_find [OF assms(1) inside])
  show ?thesis
  proof (cases "find (matches_window B ?ms) [0 ..< n]")
    case None
    have "\<not> matches_window B ?ms i" if "i + length ?ms \<le> length B" for i
      using find_upt_None [OF None] that n by blast
    then show ?thesis using run None by simp
  next
    case (Some i)
    from find_upt_Some [OF Some] n run Some show ?thesis by auto
  qed
qed

theorem replace_pattern_leftmost_witness:
  "list_all is_matcher (split_space ''8B ??'') \<and>
   length (split_space ''8B ??'') \<le> length [0x00, 0x8B, 0x11, 0x8B, 0x22 :: byte] \<and>
   fst (replace_pattern [0x00, 0x8B, 0x11, 0x8B, 0x22] ''8B ??'' [0xAA]) = Inr 1 \<and>
   matches_window [0x00, 0x8B, 0x11, 0x8B, 0x22] (split_space ''8B ??'') 1 \<and>
   \<not> matches_window [0x00, 0x8B, 0x11, 0x8B, 0x22] (split_space ''8B ??'') 0"
proof -
  have h1: "list_all is_matcher (split_space ''8B ??'')"
    by (simp add: is_matcher_def int_base16_def hex_digit_def)
  have h2: "length (split_space ''8B ??'') \<le> length [0x00, 0x8B, 0x11, 0x8B, 0x22 :: byte]"
    by simp
  have r: "fst (replace_pattern [0x00, 0x8B, 0x11, 0x8B, 0x22] ''8B ??'' [0xAA]) = Inr 1"
    by code_simp
  have m1: "matches_window [0x00, 0x8B, 0x11, 0x8B, 0x22] (split_space ''8B ??'') 1"
    by (simp add: matches_window_def matcher_accepts_def int_base16_def hex_digit_def)
  have m0: "\<not> matches_window [0x00, 0x8B, 0x11, 0x8B, 0x22] (split_space ''8B ??'') 0"
    by (simp add: matches_window_def matcher_accepts_def int_base16_def hex_digit_def)
  from replace_pattern_leftmost [OF h1 h2, of "[0xAA]"] h1 h2 r m1 m0 show ?thesis by blast
qed

text \<open>
  Claim C7. Frame condition: when \<^verbatim>\<open>replace_pattern\<close> returns \<open>-1\<close> (or raises) the
  buffer is unchanged; when it returns an offset \<open>i\<close>, every position of the buffer
  outside \<open>[i, i + len(new_bytes))\<close> keeps its byte and the \<open>len(new_bytes)\<close> positions
  from \<open>i\<close> on hold \<^verbatim>\<open>new_bytes\<close>.
\<close>

theorem replace_pattern_frame:
  assumes "replace_pattern B P R = (r, B')"
  shows "(r = Inr (- 1) \<longrightarrow> B' = B) \<and>
         (\<forall>e. r = Inl e \<longrightarrow> B' = B) \<and>
         (\<forall>i. r = Inr (int i) \<longrightarrow>
              (\<forall>k<length B. k < i \<or> i + length R \<le> k \<longrightarrow> B' ! k = B ! k) \<and>
              (\<forall>k<length R. B' ! (i + k) = R ! k) \<and>
              length B' = max (length B) (i + length R))"
proof -
  from replace_pattern_cases [OF assms] show ?thesis
  proof (elim disjE exE conjE)
    assume "B' = B" "r = Inr (- 1)"
    then show ?thesis by simp
  next
    fix e assume "B' = B" "r = Inl e"
    then show ?thesis by simp
  next
    fix i assume i: "i < length B" "r = Inr (int i)" "B' = assign_slice B i R"
    then have le: "i \<le> length B" by simp
    show ?thesis
      using i assign_slice_nth [OF le] assign_slice_frame(4) [OF le]
      by auto
  qed
qed

theorem replace_pattern_frame_witness:
  "replace_pattern [0x00, 0x8B, 0x11] ''8B'' [0xAA] = (Inr (int 1), [0x00, 0xAA, 0x11]) \<and>
   [0x00, 0xAA, 0x11 :: byte] ! 0 = [0x00, 0x8B, 0x11] ! 0 \<and>
   [0x00, 0xAA, 0x11 :: byte] ! 2 = [0x00, 0x8B, 0x11] ! 2 \<and>
   [0x00, 0xAA, 0x11 :: byte] ! (1 + 0) = [0xAA] ! 0 \<and>
   length [0x00, 0xAA, 0x11 :: byte] = max (length [0x00, 0x8B, 0x11 :: byte]) (1 + length [0xAA :: byte])"
proof -
  have run: "replace_pattern [0x00, 0x8B, 0x11] ''8B'' [0xAA] = (Inr (int 1), [0x00, 0xAA, 0x11])"
    by code_simp
  from replace_pattern_frame [OF run]
  have "(\<forall>k<length [0x00, 0x8B, 0x11 :: byte]. k < 1 \<or> 1 + length [0xAA :: byte] \<le> k \<longrightarrow>
            [0x00, 0xAA, 0x11 :: byte] ! k = [0x00, 0x8B, 0x11] ! k) \<and>
        (\<forall>k<length [0xAA :: byte]. [0x00, 0xAA, 0x11 :: byte] ! (1 + k) = [0xAA] ! k) \<and>
        length [0x00, 0xAA, 0x11 :: byte] = max (length [0x00, 0x8B, 0x11 :: byte]) (1 + length [0xAA :: byte])"
    by blast
  then show ?thesis using run by simp
qed

text \<open>
  Claim C6 says that a match at \<open>i\<close> with \<open>i + len(new_bytes)\<close> beyond the end of the
  buffer is reported as an error. On the one-byte buffer \<^verbatim>\<open>8B\<close>, the pattern
  \<^verbatim>\<open>8B\<close> and three replacement bytes, the call returns offset 0 and leaves a
  buffer of three bytes.
\<close>

theorem replace_pattern_grows_counterexample:
  "replace_pattern [0x8B] ''8B'' [0x01, 0x02, 0x03] = (Inr 0, [0x01, 0x02, 0x03])"
  by code_simp

text \<open>
  Claim C6, as the code has it. When \<^verbatim>\<open>replace_pattern\<close> returns an offset \<open>i\<close>
  with \<open>i + len(new_bytes)\<close> beyond the end of the buffer, no error is raised: the
  buffer keeps its first \<open>i\<close> bytes, ends with \<^verbatim>\<open>new_bytes\<close> and has grown to
  \<open>i + len(new_bytes)\<close> bytes.
\<close>

theorem replace_pattern_past_end:
  assumes "replace_pattern B P R = (Inr (int i), B')"
    and "length B < i + length R"
  shows "B' = take i B @ R \<and> length B' = i + length R"
proof -
  from replace_pattern_cases [OF assms(1)]
  have "i < length B \<and> B' = assign_slice B i R" by auto
  then show ?thesis using assms(2) by (simp add: assign_slice_def)
qed

theorem replace_pattern_past_end_witness:
  "replace_pattern [0x00, 0x8B] ''8B'' [0x01, 0x02, 0x03] = (Inr (int 1), [0x00, 0x01, 0x02, 0x03]) \<and>
   length [0x00, 0x8B :: byte] < 1 + length [0x01, 0x02, 0x03 :: byte] \<and>
   [0x00, 0x01, 0x02, 0x03] = take 1 [0x00, 0x8B :: byte] @ [0x01, 0x02, 0x03] \<and>
   length [0x00, 0x01, 0x02, 0x03 :: byte] = 1 + length [0x01, 0x02, 0x03 :: byte]"
proof -
  have run: "replace_pattern [0x00, 0x8B] ''8B'' [0x01, 0x02, 0x03] = (Inr (int 1), [0x00, 0x01, 0x02, 0x03])"
    by code_simp
  have past: "length [0x00, 0x8B :: byte] < 1 + length [0x01, 0x02, 0x03 :: byte]"
    by simp
  from replace_pattern_past_end [OF run past] run past show ?thesis by blast
qed

section \<open>The patch set, the detection bound and the errors\<close>

lemma bytes_contains_here: "bytes_contains xs (xs @ ss)"
proof (cases "xs @ ss")
  case Nil
  then show ?thesis by simp
next
  case (Cons a list)
  have "take (length xs) (xs @ ss) = xs" by simp
  then have "take (length xs) (a # list) = xs" unfolding Cons .
  then show ?thesis unfolding Cons by simp
qed

lemma bytes_contains_append: "bytes_contains xs (ps @ xs @ ss)"
  by (induction ps) (simp_all add: bytes_contains_here)

lemma to_bytes4_in_range:
  "0 \<le> x \<Longrightarrow> x < 2 ^ 32 \<Longrightarrow>
   to_bytes4 x = Inr [word_of_int (x mod 256), word_of_int (x div 256 mod 256),
                      word_of_int (x div 65536 mod 256), word_of_int (x div 16777216 mod 256)]"
  by (simp add: to_bytes4_def)

lemma to_bytes4_out_of_range: "x < 0 \<or> 2 ^ 32 \<le> x \<Longrightarrow> to_bytes4 x = Inl OverflowError"
  by (auto simp: to_bytes4_def)

text \<open>
  Claim C3 says that the four serialized bytes of the parameter occur in the
  replacement of each of the three patches. For parameter 5 the bytes are
  \<^verbatim>\<open>05 00 00 00\<close>, and the replacement of \<^verbatim>\<open>raid_status\<close> is the constant
  \<^verbatim>\<open>39 C0 90 90\<close>, which does not hold them.
\<close>

theorem create_raid_patches_status_counterexample:
  "create_raid_patches 5 =
     Inr [(''get_raid'', ''8B 81 C4 53 1D 00'', [0xB8, 0x05, 0x00, 0x00, 0x00, 0x90]),
          (''set_raid'', ''66 0F 73 DA 08 66 41 0F 7E 50 04 F2 0F 11 4C'',
             [0x41, 0xC7, 0x40, 0x04, 0x05, 0x00, 0x00, 0x00, 0x90, 0x90, 0x90]),
          (''raid_status'', ''83 78 10 02 74 10'', [0x39, 0xC0, 0x90, 0x90])] \<and>
   to_bytes4 5 = Inr [0x05, 0x00, 0x00, 0x00] \<and>
   \<not> bytes_contains [0x05, 0x00, 0x00, 0x00] [0x39, 0xC0, 0x90, 0x90]"
  by (simp add: create_raid_patches_def to_bytes4_def)

text \<open>
  Claim C3, as the code has it. For every parameter in \<open>[0, 2^32)\<close>,
  \<^verbatim>\<open>create_raid_patches\<close> returns exactly three patches, named \<^verbatim>\<open>get_raid\<close>,
  \<^verbatim>\<open>set_raid\<close> and \<^verbatim>\<open>raid_status\<close> in that order; the four little-endian bytes of
  the parameter occur as a contiguous run in the replacements of \<^verbatim>\<open>get_raid\<close> and of
  \<^verbatim>\<open>set_raid\<close>, and the replacement of \<^verbatim>\<open>raid_status\<close> is the constant
  \<^verbatim>\<open>39 C0 90 90\<close>.
\<close>

theorem create_raid_patches_embeds:
  assumes "0 \<le> x" and "x < 2 ^ 32"
  shows "\<exists>rb get_p get_r set_p set_r status_p.
           to_bytes4 x = Inr rb \<and> length rb = 4 \<and>
           create_raid_patches x =
             Inr [(''get_raid'', get_p, get_r), (''set_raid'', set_p, set_r),
                  (''raid_status'', status_p, [0x39, 0xC0, 0x90, 0x90])] \<and>
           bytes_contains rb get_r \<and> bytes_contains rb set_r"
proof -
  from to_bytes4_in_range [OF assms] obtain rb where rb: "to_bytes4 x = Inr rb" "length rb = 4"
    by simp
  have g: "bytes_contains rb ([0xB8] @ rb @ [0x90])"
    by (rule bytes_contains_append)
  have s: "bytes_contains rb ([0x41, 0xC7, 0x40, 0x04] @ rb @ [0x90, 0x90, 0x90])"
    by (rule bytes_contains_append)
  show ?thesis using rb g s by (simp add: create_raid_patches_def)
qed

theorem create_raid_patches_embeds_witness:
  "(0::int) \<le> 5 \<and> (5::int) < 2 ^ 32 \<and>
   (\<exists>rb get_p get_r set_p set_r status_p.
           to_bytes4 5 = Inr rb \<and> length rb = 4 \<and>
           create_raid_patches 5 =
             Inr [(''get_raid'', get_p, get_r), (''set_raid'', set_p, set_r),
                  (''raid_status'', status_p, [0x39, 0xC0, 0x90, 0x90])] \<and>
           bytes_contains rb get_r \<and> bytes_contains rb set_r)"
proof -
  have h1: "(0::int) \<le> 5" and h2: "(5::int) < 2 ^ 32" by simp_all
  from create_raid_patches_embeds [OF h1 h2] h1 h2 show ?thesis by blast
qed

lemma detect_loop_range:
  "detect_loop exe offs = Inr (Some v) \<Longrightarrow> 1 \<le> v \<and> v \<le> 38"
  by (induction offs) (auto simp: Let_def split: if_splits)

lemma detect_current_patch_range:
  "detect_current_patch f = Inr (Some v) \<Longrightarrow> 1 \<le> v \<and> v \<le> 38"
  by (auto simp: detect_current_patch_def detect_body_def path_exists_def
           dest: detect_loop_range split: if_splits sum.splits)

text \<open>
  Claim C5 says that parameter 300, once embedded by the patch machinery, is decoded
  back as 300 by the detection scan. Patching the example image with 300 succeeds and
  writes \<^verbatim>\<open>B8 2C 01 00 00 90\<close> at offset 0, and \<^verbatim>\<open>detect_current_patch\<close> on the
  written file returns \<^verbatim>\<open>None\<close>.
\<close>

theorem detect_rejects_300_counterexample:
  "patch_executable (on_disk clean_exe) 300 =
     (Inr \<lparr>success = True,
           offsets = [(''get_raid'', 0), (''set_raid'', 6), (''raid_status'', 21)],
           errors = []\<rparr>,
      on_disk [0xB8, 0x2C, 0x01, 0x00, 0x00, 0x90,
               0x41, 0xC7, 0x40, 0x04, 0x2C, 0x01, 0x00, 0x00, 0x90, 0x90, 0x90,
               0xF2, 0x0F, 0x11, 0x4C,
               0x39, 0xC0, 0x90, 0x90, 0x74, 0x10]) \<and>
   detect_current_patch
     (on_disk [0xB8, 0x2C, 0x01, 0x00, 0x00, 0x90,
               0x41, 0xC7, 0x40, 0x04, 0x2C, 0x01, 0x00, 0x00, 0x90, 0x90, 0x90,
               0xF2, 0x0F, 0x11, 0x4C,
               0x39, 0xC0, 0x90, 0x90, 0x74, 0x10]) = Inr None"
  by code_simp

text \<open>
  Claim C5, as the code has it. The patch generator has no 1..38 bound: parameter 300
  is serialized as \<^verbatim>\<open>2C 01 00 00\<close> (which reads back as 300) and embedded in the
  replacements of \<^verbatim>\<open>get_raid\<close> and \<^verbatim>\<open>set_raid\<close>. The detection scan does have the
  bound: whatever the file, \<^verbatim>\<open>detect_current_patch\<close> never returns 300.
\<close>

theorem parameter_300_serialized_not_detected:
  "to_bytes4 300 = Inr [0x2C, 0x01, 0x00, 0x00] \<and>
   from_bytes_le [0x2C, 0x01, 0x00, 0x00] = 300 \<and>
   create_raid_patches 300 =
     Inr [(''get_raid'', ''8B 81 C4 53 1D 00'', [0xB8, 0x2C, 0x01, 0x00, 0x00, 0x90]),
          (''set_raid'', ''66 0F 73 DA 08 66 41 0F 7E 50 04 F2 0F 11 4C'',
             [0x41, 0xC7, 0x40, 0x04, 0x2C, 0x01, 0x00, 0x00, 0x90, 0x90, 0x90]),
          (''raid_status'', ''83 78 10 02 74 10'', [0x39, 0xC0, 0x90, 0x90])] \<and>
   detect_current_patch f \<noteq> Inr (Some 300)"
proof -
  have "detect_current_patch f \<noteq> Inr (Some 300)"
    using detect_current_patch_range [of f 300] by auto
  then show ?thesis by (simp add: create_raid_patches_def to_bytes4_def)
qed




text \<open>
  Claim C10. For every \<^verbatim>\<open>raid_index\<close> in \<open>[0, 2^32)\<close> \<^verbatim>\<open>create_raid_patches\<close> returns a
  patch set; for a negative one and for one from \<open>2^32\<close> on it raises
  \<^verbatim>\<open>OverflowError\<close>, and \<^verbatim>\<open>patch_executable\<close>, once it has read the file, lets that
  exception through unchanged and leaves the file as it was.
\<close>

theorem create_raid_patches_overflow:
  "(0 \<le> x \<and> x < 2 ^ 32 \<longrightarrow> (\<exists>ps. create_raid_patches x = Inr ps)) \<and>
   (x < 0 \<or> 2 ^ 32 \<le> x \<longrightarrow>
      create_raid_patches x = Inl OverflowError \<and>
      (\<forall>f d. read_bytes f = Inr d \<longrightarrow> patch_executable f x = (Inl OverflowError, f)))"
proof (intro conjI impI)
  assume "0 \<le> x \<and> x < 2 ^ 32"
  then show "\<exists>ps. create_raid_patches x = Inr ps"
    by (simp add: create_raid_patches_def to_bytes4_in_range)
next
  assume out: "x < 0 \<or> 2 ^ 32 \<le> x"
  then show c: "create_raid_patches x = Inl OverflowError"
    by (simp add: create_raid_patches_def to_bytes4_out_of_range)
  show "\<forall>f d. read_bytes f = Inr d \<longrightarrow> patch_executable f x = (Inl OverflowError, f)"
    using out by (simp add: patch_executable_def create_raid_patches_def to_bytes4_out_of_range)
qed

theorem create_raid_patches_overflow_witness:
  "(\<exists>ps. create_raid_patches 4294967295 = Inr ps) \<and>
   create_raid_patches (- 1) = Inl OverflowError \<and>
   create_raid_patches 4294967296 = Inl OverflowError \<and>
   patch_executable (on_disk clean_exe) (- 1) = (Inl OverflowError, on_disk clean_exe) \<and>
   patch_executable (on_disk clean_exe) 4294967296 = (Inl OverflowError, on_disk clean_exe)"
proof -
  have r: "read_bytes (on_disk clean_exe) = Inr clean_exe"
    by (simp add: read_bytes_def on_disk_def)
  from create_raid_patches_overflow [of 4294967295] create_raid_patches_overflow [of "- 1"]
       create_raid_patches_overflow [of 4294967296] r
  show ?thesis by simp
qed

section \<open>The three patches of \<^verbatim>\<open>patch_executable\<close>\<close>

lemma first_match_offsets:
  "[0 ..< nat (int (length B) - int (length (split_space P)) + 1)] =
   [0 ..< length B + 1 - length (split_space P)]"
proof -
  have "nat (int (length B) - int (length (split_space P)) + 1) =
        length B + 1 - length (split_space P)"
    by arith
  then show ?thesis by simp
qed

lemma replace_pattern_first_match:
  assumes "list_all is_matcher (split_space P)"
  shows "replace_pattern B P R =
           (Inr (case first_match B P of None \<Rightarrow> - 1 | Some i \<Rightarrow> int i), patch_once B P R)"
proof -
  let ?offs = "[0 ..< nat (int (length B) - int (length (split_space P)) + 1)]"
  have "\<forall>i\<in>set ?offs. i + length (split_space P) \<le> length B"
    using range_offsets [of _ B P] by blast
  from scan_find [OF assms this, of R] show ?thesis
    unfolding replace_pattern_def Let_def first_match_def patch_once_def first_match_offsets
    by (simp split: option.splits)
qed

lemma first_match_Some:
  assumes "first_match B P = Some i"
  shows "i + length (split_space P) \<le> length B \<and> matches_window B (split_space P) i \<and>
         (\<forall>k<i. \<not> matches_window B (split_space P) k)"
proof -
  from find_upt_Some [OF assms [unfolded first_match_def]]
  have "i < length B + 1 - length (split_space P)"
       "matches_window B (split_space P) i"
       "\<forall>k<i. \<not> matches_window B (split_space P) k"
    by simp_all
  then show ?thesis by simp
qed

lemma get_pattern_matchers: "list_all is_matcher (split_space ''8B 81 C4 53 1D 00'')"
  by (simp add: is_matcher_def int_base16_def hex_digit_def)

lemma set_pattern_matchers:
  "list_all is_matcher (split_space ''66 0F 73 DA 08 66 41 0F 7E 50 04 F2 0F 11 4C'')"
  by (simp add: is_matcher_def int_base16_def hex_digit_def)

lemma status_pattern_matchers: "list_all is_matcher (split_space ''83 78 10 02 74 10'')"
  by (simp add: is_matcher_def int_base16_def hex_digit_def)

lemma apply_three:
  assumes "replace_pattern B p1 n1 = (Inr r1, B1)"
      and "replace_pattern B1 p2 n2 = (Inr r2, B2)"
      and "replace_pattern B2 p3 n3 = (Inr r3, B3)"
  shows "apply_patches [(''get_raid'', p1, n1), (''set_raid'', p2, n2), (''raid_status'', p3, n3)] B
           \<lparr>success = True, offsets = [], errors = []\<rparr> =
         Inr (B3,
           \<lparr>success = (0 \<le> r1 \<and> 0 \<le> r2 \<and> 0 \<le> r3),
            offsets = (if 0 \<le> r1 then [(''get_raid'', r1)] else []) @
                      (if 0 \<le> r2 then [(''set_raid'', r2)] else []) @
                      (if 0 \<le> r3 then [(''raid_status'', r3)] else []),
            errors = (if r1 < 0 then [''get_raid pattern scan failed''] else []) @
                     (if r2 < 0 then [''set_raid pattern scan failed''] else []) @
                     (if r3 < 0 then [''raid_status pattern scan failed''] else [])\<rparr>)"
  using assms by (simp add: not_le)

lemma report_three:
  fixes o1 o2 o3 :: "nat option"
  assumes r: "r = (\<lambda>v. case v of None \<Rightarrow> - 1 | Some i \<Rightarrow> int i)"
  shows "\<lparr>success = (0 \<le> r o1 \<and> 0 \<le> r o2 \<and> 0 \<le> r o3),
          offsets = (if 0 \<le> r o1 then [(''get_raid'', r o1)] else []) @
                    (if 0 \<le> r o2 then [(''set_raid'', r o2)] else []) @
                    (if 0 \<le> r o3 then [(''raid_status'', r o3)] else []),
          errors = (if r o1 < 0 then [''get_raid pattern scan failed''] else []) @
                   (if r o2 < 0 then [''set_raid pattern scan failed''] else []) @
                   (if r o3 < 0 then [''raid_status pattern scan failed''] else [])\<rparr> =
         \<lparr>success = list_all (\<lambda>(n, v). v \<noteq> None)
                      [(''get_raid'', o1), (''set_raid'', o2), (''raid_status'', o3)],
          offsets = [(n, int i). (n, Some i) \<leftarrow>
                      [(''get_raid'', o1), (''set_raid'', o2), (''raid_status'', o3)]],
          errors = [n @ '' pattern scan failed''. (n, None) \<leftarrow>
                      [(''get_raid'', o1), (''set_raid'', o2), (''raid_status'', o3)]]\<rparr>"
  unfolding r by (cases o1; cases o2; cases o3) simp_all

text \<open>The call on a file that can be read, with a parameter that can be serialized.\<close>

lemma patch_executable_run:
  assumes "read_bytes f = Inr B" and "to_bytes4 x = Inr rb"
  shows "patch_executable f x =
     (let B1 = patch_once B ''8B 81 C4 53 1D 00'' ([0xB8] @ rb @ [0x90]);
          B2 = patch_once B1 ''66 0F 73 DA 08 66 41 0F 7E 50 04 F2 0F 11 4C''
                 ([0x41, 0xC7, 0x40, 0x04] @ rb @ [0x90, 0x90, 0x90]);
          B3 = patch_once B2 ''83 78 10 02 74 10'' [0x39, 0xC0, 0x90, 0x90];
          found = [(''get_raid'', first_match B ''8B 81 C4 53 1D 00''),
                   (''set_raid'', first_match B1 ''66 0F 73 DA 08 66 41 0F 7E 50 04 F2 0F 11 4C''),
                   (''raid_status'', first_match B2 ''83 78 10 02 74 10'')];
          res = \<lparr>success = list_all (\<lambda>(n, v). v \<noteq> None) found,
                 offsets = [(n, int i). (n, Some i) \<leftarrow> found],
                 errors = [n @ '' pattern scan failed''. (n, None) \<leftarrow> found]\<rparr>
      in if success res then
           (case write_bytes f B3 of
              (Inl e, left) \<Rightarrow> (Inl (PatchError ''Cannot write executable'' e), left)
            | (Inr u, written) \<Rightarrow> (Inr res, written))
         else (Inr res, f))"
proof -
  define B1 where "B1 = patch_once B ''8B 81 C4 53 1D 00'' ([0xB8] @ rb @ [0x90])"
  define B2 where "B2 = patch_once B1 ''66 0F 73 DA 08 66 41 0F 7E 50 04 F2 0F 11 4C''
                 ([0x41, 0xC7, 0x40, 0x04] @ rb @ [0x90, 0x90, 0x90])"
  define B3 where "B3 = patch_once B2 ''83 78 10 02 74 10'' [0x39, 0xC0, 0x90, 0x90]"
  define o1 where "o1 = first_match B ''8B 81 C4 53 1D 00''"
  define o2 where "o2 = first_match B1 ''66 0F 73 DA 08 66 41 0F 7E 50 04 F2 0F 11 4C''"
  define o3 where "o3 = first_match B2 ''83 78 10 02 74 10''"
  define r where "r = (\<lambda>v. case v of None \<Rightarrow> - 1 | Some i \<Rightarrow> int i)"
  have calls:
    "replace_pattern B ''8B 81 C4 53 1D 00'' ([0xB8] @ rb @ [0x90]) = (Inr (r o1), B1)"
    "replace_pattern B1 ''66 0F 73 DA 08 66 41 0F 7E 50 04 F2 0F 11 4C''
       ([0x41, 0xC7, 0x40, 0x04] @ rb @ [0x90, 0x90, 0x90]) = (Inr (r o2), B2)"
    "replace_pattern B2 ''83 78 10 02 74 10'' [0x39, 0xC0, 0x90, 0x90] = (Inr (r o3), B3)"
    unfolding r_def o1_def o2_def o3_def B1_def B2_def B3_def
    by (rule replace_pattern_first_match [OF get_pattern_matchers]
             replace_pattern_first_match [OF set_pattern_matchers]
             replace_pattern_first_match [OF status_pattern_matchers])+
  have patches: "create_raid_patches x =
             Inr [(''get_raid'', ''8B 81 C4 53 1D 00'', [0xB8] @ rb @ [0x90]),
                  (''set_raid'', ''66 0F 73 DA 08 66 41 0F 7E 50 04 F2 0F 11 4C'',
                     [0x41, 0xC7, 0x40, 0x04] @ rb @ [0x90, 0x90, 0x90]),
                  (''raid_status'', ''83 78 10 02 74 10'', [0x39, 0xC0, 0x90, 0x90])]"
    using assms(2) by (simp add: create_raid_patches_def)
  define res where "res =
     \<lparr>success = list_all (\<lambda>(n, v). v \<noteq> None)
                      [(''get_raid'', o1), (''set_raid'', o2), (''raid_status'', o3)],
          offsets = [(n, int i). (n, Some i) \<leftarrow>
                      [(''get_raid'', o1), (''set_raid'', o2), (''raid_status'', o3)]],
          errors = [n @ '' pattern scan failed''. (n, None) \<leftarrow>
                      [(''get_raid'', o1), (''set_raid'', o2), (''raid_status'', o3)]]\<rparr>"
  have loop: "apply_patches
                [(''get_raid'', ''8B 81 C4 53 1D 00'', [0xB8] @ rb @ [0x90]),
                 (''set_raid'', ''66 0F 73 DA 08 66 41 0F 7E 50 04 F2 0F 11 4C'',
                    [0x41, 0xC7, 0x40, 0x04] @ rb @ [0x90, 0x90, 0x90]),
                 (''raid_status'', ''83 78 10 02 74 10'', [0x39, 0xC0, 0x90, 0x90])] B
                \<lparr>success = True, offsets = [], errors = []\<rparr> = Inr (B3, res)"
    unfolding res_def report_three [OF r_def, of o1 o2 o3, symmetric]
    by (rule apply_three [OF calls])
  have "patch_executable f x =
          (if success res then
             (case write_bytes f B3 of
                (Inl e, left) \<Rightarrow> (Inl (PatchError ''Cannot write executable'' e), left)
              | (Inr u, written) \<Rightarrow> (Inr res, written))
           else (Inr res, f))"
    by (simp only: patch_executable_def assms(1) patches loop sum.case prod.case)
  then show ?thesis
    unfolding Let_def res_def o1_def o2_def o3_def B3_def B2_def B1_def .
qed

text \<open>
  Claim C2. For every file and every parameter: when the file cannot be read the call
  raises \<^verbatim>\<open>PatchError\<close>, when the parameter cannot be serialized it raises
  \<^verbatim>\<open>OverflowError\<close>, and in both cases the file is untouched. Otherwise each of the
  three patterns is looked for, the first in the bytes read and each next one in the
  buffer as the patch before it left it, whether that patch matched or not. The result
  lists, in this order, the leftmost matching offset of every pattern that matched and
  the message of every pattern that did not; \<^verbatim>\<open>success\<close> holds exactly when all three
  matched, which is exactly when the error list is empty. When some pattern did not
  match the result is returned and the file is the file of before the call. Only when
  all three matched is the patched buffer written; the call then returns the result
  with the written file, or raises \<^verbatim>\<open>PatchError\<close> with the file as the failed write
  left it.
\<close>

theorem patch_executable_all_or_nothing:
  "(\<forall>e. read_bytes f = Inl e \<longrightarrow>
       patch_executable f x = (Inl (PatchError ''Cannot read executable'' e), f)) \<and>
   (\<forall>B e. read_bytes f = Inr B \<longrightarrow> to_bytes4 x = Inl e \<longrightarrow>
       patch_executable f x = (Inl e, f)) \<and>
   (\<forall>B rb. read_bytes f = Inr B \<longrightarrow> to_bytes4 x = Inr rb \<longrightarrow>
      (let B1 = patch_once B ''8B 81 C4 53 1D 00'' ([0xB8] @ rb @ [0x90]);
           B2 = patch_once B1 ''66 0F 73 DA 08 66 41 0F 7E 50 04 F2 0F 11 4C''
                  ([0x41, 0xC7, 0x40, 0x04] @ rb @ [0x90, 0x90, 0x90]);
           B3 = patch_once B2 ''83 78 10 02 74 10'' [0x39, 0xC0, 0x90, 0x90];
           found = [(''get_raid'', first_match B ''8B 81 C4 53 1D 00''),
                    (''set_raid'',
                       first_match B1 ''66 0F 73 DA 08 66 41 0F 7E 50 04 F2 0F 11 4C''),
                    (''raid_status'', first_match B2 ''83 78 10 02 74 10'')];
           res = \<lparr>success = list_all (\<lambda>(n, v). v \<noteq> None) found,
                  offsets = [(n, int i). (n, Some i) \<leftarrow> found],
                  errors = [n @ '' pattern scan failed''. (n, None) \<leftarrow> found]\<rparr>
       in (success res \<longleftrightarrow> errors res = []) \<and>
          (\<not> success res \<longrightarrow> patch_executable f x = (Inr res, f)) \<and>
          (success res \<longrightarrow>
             (\<forall>written. write_bytes f B3 = (Inr (), written) \<longrightarrow>
                 patch_executable f x = (Inr res, written)) \<and>
             (\<forall>e left. write_bytes f B3 = (Inl e, left) \<longrightarrow>
                 patch_executable f x =
                   (Inl (PatchError ''Cannot write executable'' e), left)))))"
proof (intro conjI allI impI)
  fix e
  assume "read_bytes f = Inl e"
  then show "patch_executable f x = (Inl (PatchError ''Cannot read executable'' e), f)"
    by (simp add: patch_executable_def)
next
  fix B e
  assume "read_bytes f = Inr B" and "to_bytes4 x = Inl e"
  then show "patch_executable f x = (Inl e, f)"
    by (simp add: patch_executable_def create_raid_patches_def)
next
  fix B rb
  assume rd: "read_bytes f = Inr B" and tb: "to_bytes4 x = Inr rb"
  define o1 where "o1 = first_match B ''8B 81 C4 53 1D 00''"
  define o2 where "o2 = first_match (patch_once B ''8B 81 C4 53 1D 00'' ([0xB8] @ rb @ [0x90]))
                          ''66 0F 73 DA 08 66 41 0F 7E 50 04 F2 0F 11 4C''"
  define o3 where "o3 = first_match
                          (patch_once (patch_once B ''8B 81 C4 53 1D 00'' ([0xB8] @ rb @ [0x90]))
                             ''66 0F 73 DA 08 66 41 0F 7E 50 04 F2 0F 11 4C''
                             ([0x41, 0xC7, 0x40, 0x04] @ rb @ [0x90, 0x90, 0x90]))
                          ''83 78 10 02 74 10''"
  have iff: "list_all (\<lambda>(n, v). v \<noteq> None)
               [(''get_raid'', o1), (''set_raid'', o2), (''raid_status'', o3)] \<longleftrightarrow>
             [n @ '' pattern scan failed''. (n, None) \<leftarrow>
               [(''get_raid'', o1), (''set_raid'', o2), (''raid_status'', o3)]] = []"
    by (cases o1; cases o2; cases o3) simp_all
  show "let B1 = patch_once B ''8B 81 C4 53 1D 00'' ([0xB8] @ rb @ [0x90]);
           B2 = patch_once B1 ''66 0F 73 DA 08 66 41 0F 7E 50 04 F2 0F 11 4C''
                  ([0x41, 0xC7, 0x40, 0x04] @ rb @ [0x90, 0x90, 0x90]);
           B3 = patch_once B2 ''83 78 10 02 74 10'' [0x39, 0xC0, 0x90, 0x90];
           found = [(''get_raid'', first_match B ''8B 81 C4 53 1D 00''),
                    (''set_raid'',
                       first_match B1 ''66 0F 73 DA 08 66 41 0F 7E 50 04 F2 0F 11 4C''),
                    (''raid_status'', first_match B2 ''83 78 10 02 74 10'')];
           res = \<lparr>success = list_all (\<lambda>(n, v). v \<noteq> None) found,
                  offsets = [(n, int i). (n, Some i) \<leftarrow> found],
                  errors = [n @ '' pattern scan failed''. (n, None) \<leftarrow> found]\<rparr>
       in (success res \<longleftrightarrow> errors res = []) \<and>
          (\<not> success res \<longrightarrow> patch_executable f x = (Inr res, f)) \<and>
          (success res \<longrightarrow>
             (\<forall>written. write_bytes f B3 = (Inr (), written) \<longrightarrow>
                 patch_executable f x = (Inr res, written)) \<and>
             (\<forall>e left. write_bytes f B3 = (Inl e, left) \<longrightarrow>
                 patch_executable f x =
                   (Inl (PatchError ''Cannot write executable'' e), left)))"
    unfolding patch_executable_run [OF rd tb] Let_def
    using iff [unfolded o1_def o2_def o3_def] by (simp only: results.simps) auto
qed

theorem patch_executable_all_or_nothing_witness:
  "patch_executable ((on_disk clean_exe)\<lparr>can_read := False\<rparr>) 5 =
     (Inl (PatchError ''Cannot read executable'' OSError),
      (on_disk clean_exe)\<lparr>can_read := False\<rparr>) \<and>
   patch_executable (on_disk clean_exe) (- 1) = (Inl OverflowError, on_disk clean_exe) \<and>
   patch_executable
     (on_disk [0x8B, 0x81, 0xC4, 0x53, 0x1D, 0x00, 0x83, 0x78, 0x10, 0x02, 0x74, 0x10]) 5 =
     (Inr \<lparr>success = False,
           offsets = [(''get_raid'', 0), (''raid_status'', 6)],
           errors = [''set_raid pattern scan failed'']\<rparr>,
      on_disk [0x8B, 0x81, 0xC4, 0x53, 0x1D, 0x00, 0x83, 0x78, 0x10, 0x02, 0x74, 0x10]) \<and>
   patch_executable (on_disk clean_exe) 5 =
     (Inr \<lparr>success = True,
           offsets = [(''get_raid'', 0), (''set_raid'', 6), (''raid_status'', 21)],
           errors = []\<rparr>,
      on_disk [0xB8, 0x05, 0x00, 0x00, 0x00, 0x90,
               0x41, 0xC7, 0x40, 0x04, 0x05, 0x00, 0x00, 0x00, 0x90, 0x90, 0x90,
               0xF2, 0x0F, 0x11, 0x4C,
               0x39, 0xC0, 0x90, 0x90, 0x74, 0x10]) \<and>
   patch_executable ((on_disk clean_exe)\<lparr>room := Some 8\<rparr>) 5 =
     (Inl (PatchError ''Cannot write executable'' OSError),
      (on_disk [0xB8, 0x05, 0x00, 0x00, 0x00, 0x90, 0x41, 0xC7])\<lparr>room := Some 8\<rparr>)"
proof -
  let ?half = "[0x8B, 0x81, 0xC4, 0x53, 0x1D, 0x00, 0x83, 0x78, 0x10, 0x02, 0x74, 0x10] :: byte list"
  let ?done = "[0xB8, 0x05, 0x00, 0x00, 0x00, 0x90,
               0x41, 0xC7, 0x40, 0x04, 0x05, 0x00, 0x00, 0x00, 0x90, 0x90, 0x90,
               0xF2, 0x0F, 0x11, 0x4C,
               0x39, 0xC0, 0x90, 0x90, 0x74, 0x10] :: byte list"
  have rd: "read_bytes ((on_disk clean_exe)\<lparr>can_read := False\<rparr>) = Inl OSError"
           "read_bytes (on_disk clean_exe) = Inr clean_exe"
           "read_bytes (on_disk ?half) = Inr ?half"
           "read_bytes ((on_disk clean_exe)\<lparr>room := Some 8\<rparr>) = Inr clean_exe"
    by (simp_all add: read_bytes_def on_disk_def)
  have tb: "to_bytes4 (- 1) = Inl OverflowError" "to_bytes4 5 = Inr [0x05, 0x00, 0x00, 0x00]"
    by (simp_all add: to_bytes4_def)
  have h1: "first_match ?half ''8B 81 C4 53 1D 00'' = Some 0"
           "patch_once ?half ''8B 81 C4 53 1D 00'' [0xB8, 0x05, 0x00, 0x00, 0x00, 0x90] =
              [0xB8, 0x05, 0x00, 0x00, 0x00, 0x90, 0x83, 0x78, 0x10, 0x02, 0x74, 0x10]"
    by code_simp+
  have h2: "first_match [0xB8, 0x05, 0x00, 0x00, 0x00, 0x90, 0x83, 0x78, 0x10, 0x02, 0x74, 0x10]
              ''66 0F 73 DA 08 66 41 0F 7E 50 04 F2 0F 11 4C'' = None"
           "patch_once [0xB8, 0x05, 0x00, 0x00, 0x00, 0x90, 0x83, 0x78, 0x10, 0x02, 0x74, 0x10]
              ''66 0F 73 DA 08 66 41 0F 7E 50 04 F2 0F 11 4C''
              [0x41, 0xC7, 0x40, 0x04, 0x05, 0x00, 0x00, 0x00, 0x90, 0x90, 0x90] =
              [0xB8, 0x05, 0x00, 0x00, 0x00, 0x90, 0x83, 0x78, 0x10, 0x02, 0x74, 0x10]"
    by code_simp+
  have h3: "first_match [0xB8, 0x05, 0x00, 0x00, 0x00, 0x90, 0x83, 0x78, 0x10, 0x02, 0x74, 0x10]
              ''83 78 10 02 74 10'' = Some 6"
    by code_simp
  have c1: "first_match clean_exe ''8B 81 C4 53 1D 00'' = Some 0"
           "patch_once clean_exe ''8B 81 C4 53 1D 00'' [0xB8, 0x05, 0x00, 0x00, 0x00, 0x90] =
              [0xB8, 0x05, 0x00, 0x00, 0x00, 0x90,
               0x66, 0x0F, 0x73, 0xDA, 0x08, 0x66, 0x41, 0x0F, 0x7E, 0x50, 0x04, 0xF2, 0x0F,
               0x11, 0x4C, 0x83, 0x78, 0x10, 0x02, 0x74, 0x10]"
    by code_simp+
  have c2: "first_match [0xB8, 0x05, 0x00, 0x00, 0x00, 0x90,
               0x66, 0x0F, 0x73, 0xDA, 0x08, 0x66, 0x41, 0x0F, 0x7E, 0x50, 0x04, 0xF2, 0x0F,
               0x11, 0x4C, 0x83, 0x78, 0x10, 0x02, 0x74, 0x10]
              ''66 0F 73 DA 08 66 41 0F 7E 50 04 F2 0F 11 4C'' = Some 6"
           "patch_once [0xB8, 0x05, 0x00, 0x00, 0x00, 0x90,
               0x66, 0x0F, 0x73, 0xDA, 0x08, 0x66, 0x41, 0x0F, 0x7E, 0x50, 0x04, 0xF2, 0x0F,
               0x11, 0x4C, 0x83, 0x78, 0x10, 0x02, 0x74, 0x10]
              ''66 0F 73 DA 08 66 41 0F 7E 50 04 F2 0F 11 4C''
              [0x41, 0xC7, 0x40, 0x04, 0x05, 0x00, 0x00, 0x00, 0x90, 0x90, 0x90] =
              [0xB8, 0x05, 0x00, 0x00, 0x00, 0x90,
               0x41, 0xC7, 0x40, 0x04, 0x05, 0x00, 0x00, 0x00, 0x90, 0x90, 0x90,
               0xF2, 0x0F, 0x11, 0x4C, 0x83, 0x78, 0x10, 0x02, 0x74, 0x10]"
    by code_simp+
  have c3: "first_match [0xB8, 0x05, 0x00, 0x00, 0x00, 0x90,
               0x41, 0xC7, 0x40, 0x04, 0x05, 0x00, 0x00, 0x00, 0x90, 0x90, 0x90,
               0xF2, 0x0F, 0x11, 0x4C, 0x83, 0x78, 0x10, 0x02, 0x74, 0x10]
              ''83 78 10 02 74 10'' = Some 21"
           "patch_once [0xB8, 0x05, 0x00, 0x00, 0x00, 0x90,
               0x41, 0xC7, 0x40, 0x04, 0x05, 0x00, 0x00, 0x00, 0x90, 0x90, 0x90,
               0xF2, 0x0F, 0x11, 0x4C, 0x83, 0x78, 0x10, 0x02, 0x74, 0x10]
              ''83 78 10 02 74 10'' [0x39, 0xC0, 0x90, 0x90] = ?done"
    by code_simp+
  have w: "write_bytes (on_disk clean_exe) ?done = (Inr (), on_disk ?done)"
          "write_bytes ((on_disk clean_exe)\<lparr>room := Some 8\<rparr>) ?done =
             (Inl OSError, (on_disk [0xB8, 0x05, 0x00, 0x00, 0x00, 0x90, 0x41, 0xC7])\<lparr>room := Some 8\<rparr>)"
    by (simp_all add: write_bytes_def on_disk_def)
  have a: "patch_executable ((on_disk clean_exe)\<lparr>can_read := False\<rparr>) 5 =
     (Inl (PatchError ''Cannot read executable'' OSError),
      (on_disk clean_exe)\<lparr>can_read := False\<rparr>)"
    using patch_executable_all_or_nothing [of "(on_disk clean_exe)\<lparr>can_read := False\<rparr>" 5] rd(1)
    by simp
  have b: "patch_executable (on_disk clean_exe) (- 1) = (Inl OverflowError, on_disk clean_exe)"
    using patch_executable_all_or_nothing [of "on_disk clean_exe" "- 1"] rd(2) tb(1)
    by simp
  have c: "patch_executable (on_disk ?half) 5 =
     (Inr \<lparr>success = False,
           offsets = [(''get_raid'', 0), (''raid_status'', 6)],
           errors = [''set_raid pattern scan failed'']\<rparr>,
      on_disk ?half)"
    using patch_executable_all_or_nothing [of "on_disk ?half" 5] rd(3) tb(2)
    by (simp add: Let_def h1 h2 h3)
  have d: "patch_executable (on_disk clean_exe) 5 =
     (Inr \<lparr>success = True,
           offsets = [(''get_raid'', 0), (''set_raid'', 6), (''raid_status'', 21)],
           errors = []\<rparr>,
      on_disk ?done)"
    using patch_executable_all_or_nothing [of "on_disk clean_exe" 5] rd(2) tb(2)
    by (simp add: Let_def c1 c2 c3 w)
  have e: "patch_executable ((on_disk clean_exe)\<lparr>room := Some 8\<rparr>) 5 =
     (Inl (PatchError ''Cannot write executable'' OSError),
      (on_disk [0xB8, 0x05, 0x00, 0x00, 0x00, 0x90, 0x41, 0xC7])\<lparr>room := Some 8\<rparr>)"
    using patch_executable_all_or_nothing [of "(on_disk clean_exe)\<lparr>room := Some 8\<rparr>" 5] rd(4) tb(2)
    by (simp add: Let_def c1 c2 c3 w)
  from a b c d e show ?thesis by (intro conjI)
qed

section \<open>What a patch leaves in place\<close>

lemma window_nth:
  assumes "matches_window B ms i" and "i + length ms \<le> length B" and "j < length ms"
  shows "matcher_accepts (ms ! j) (B ! (i + j))"
proof -
  have "list_all2 matcher_accepts ms (take (length ms) (drop i B))"
    using assms(1) by (simp add: matches_window_def)
  from list_all2_nthD [OF this assms(3)] assms(2,3) show ?thesis by simp
qed

lemma assign_slice_keeps_before:
  "g + n \<le> i \<Longrightarrow> i \<le> length B \<Longrightarrow> take n (drop g (assign_slice B i R)) = take n (drop g B)"
  by (auto simp: assign_slice_def drop_take min_def)

lemma assign_slice_keeps_after:
  "i + length R \<le> g \<Longrightarrow> i \<le> length B \<Longrightarrow> drop g (assign_slice B i R) = drop g B"
  by (simp add: assign_slice_def min_def)

text \<open>
  A run of bytes \<open>S\<close> that lies in the buffer at offset \<open>g\<close> is still there after a patch
  whose pattern accepts neither the first nor the last byte of \<open>S\<close>, is longer than the
  inside of \<open>S\<close> and at least as long as its replacement: the matched window cannot
  hold either end of the run, so it lies beside it, and the replacement is written
  inside the window.
\<close>

lemma patch_once_keeps_site:
  assumes len: "length R \<le> length (split_space P)"
      and site: "g + length S \<le> length B" "take (length S) (drop g B) = S"
      and S: "2 \<le> length S" "length S \<le> length (split_space P) + 1"
      and first: "\<forall>m\<in>set (split_space P). \<not> matcher_accepts m (hd S)"
      and final: "\<forall>m\<in>set (split_space P). \<not> matcher_accepts m (last S)"
  shows "g + length S \<le> length (patch_once B P R) \<and>
         take (length S) (drop g (patch_once B P R)) = S"
proof (cases "first_match B P")
  case None
  then show ?thesis using site by (simp add: patch_once_def)
next
  case (Some i)
  let ?ms = "split_space P"
  have B': "patch_once B P R = assign_slice B i R" using Some by (simp add: patch_once_def)
  from first_match_Some [OF Some]
  have inside: "i + length ?ms \<le> length B" and win: "matches_window B ?ms i" by simp_all
  have acc: "matcher_accepts (?ms ! j) (B ! (i + j))" if "j < length ?ms" for j
    using window_nth [OF win inside that] .
  have pos: "0 < length S" using S(1) by auto
  have hdS: "B ! g = hd S"
  proof -
    have "S ! 0 = take (length S) (drop g B) ! 0" using site(2) by simp
    also have "\<dots> = B ! g" using site(1) pos by simp
    finally show ?thesis using S(1) by (cases S) simp_all
  qed
  have lastS: "B ! (g + length S - 1) = last S"
  proof -
    have "S ! (length S - 1) = take (length S) (drop g B) ! (length S - 1)"
      using site(2) by simp
    also have "\<dots> = B ! (g + (length S - 1))" using site(1) pos by simp
    finally show ?thesis using S(1) by (cases S rule: rev_cases) simp_all
  qed
  have no_first: "\<not> (i \<le> g \<and> g < i + length ?ms)"
  proof
    assume a: "i \<le> g \<and> g < i + length ?ms"
    then have lt: "g - i < length ?ms" by arith
    have eq: "i + (g - i) = g" using a by arith
    from acc [OF lt] have "matcher_accepts (?ms ! (g - i)) (hd S)"
      unfolding eq hdS .
    moreover have "?ms ! (g - i) \<in> set ?ms" using lt by (rule nth_mem)
    ultimately show False using first by blast
  qed
  have no_last: "\<not> (i \<le> g + length S - 1 \<and> g + length S - 1 < i + length ?ms)"
  proof
    assume a: "i \<le> g + length S - 1 \<and> g + length S - 1 < i + length ?ms"
    then have lt: "g + length S - 1 - i < length ?ms" by arith
    have eq: "i + (g + length S - 1 - i) = g + length S - 1" using a by arith
    from acc [OF lt] have "matcher_accepts (?ms ! (g + length S - 1 - i)) (last S)"
      unfolding eq lastS .
    moreover have "?ms ! (g + length S - 1 - i) \<in> set ?ms" using lt by (rule nth_mem)
    ultimately show False using final by blast
  qed
  have il: "i \<le> length B" using inside by simp
  have same: "length (assign_slice B i R) = length B"
    using assign_slice_frame(4) [OF il, of R] inside len by (simp add: max_def)
  from no_first no_last S consider "g + length S \<le> i" | "i + length ?ms \<le> g"
    by arith
  then show ?thesis
  proof cases
    case 1
    from assign_slice_keeps_before [OF 1 il, of R]
    show ?thesis using site same B' by simp
  next
    case 2
    then have "i + length R \<le> g" using len by simp
    from assign_slice_keeps_after [OF this il]
    show ?thesis using site same B' by simp
  qed
qed

lemma occurs_contains:
  assumes "take (length S) (drop g B) = S"
  shows "bytes_contains S B"
proof -
  have "B = take g B @ take (length S) (drop g B) @ drop (length S) (drop g B)"
    by (simp only: append_take_drop_id)
  then have "B = take g B @ S @ drop (length S) (drop g B)" using assms by simp
  then show ?thesis using bytes_contains_append [of S "take g B" "drop (length S) (drop g B)"]
    by simp
qed

text \<open>None of the three patterns accepts \<^verbatim>\<open>B8\<close> or \<^verbatim>\<open>90\<close>, the two ends of the
  instruction that \<^verbatim>\<open>get_raid\<close> writes.\<close>

lemma get_pattern_ends:
  "\<forall>m\<in>set (split_space ''8B 81 C4 53 1D 00''). \<not> matcher_accepts m 0xB8 \<and> \<not> matcher_accepts m 0x90"
  by (simp add: matcher_accepts_def int_base16_def hex_digit_def)

lemma set_pattern_ends:
  "\<forall>m\<in>set (split_space ''66 0F 73 DA 08 66 41 0F 7E 50 04 F2 0F 11 4C'').
     \<not> matcher_accepts m 0xB8 \<and> \<not> matcher_accepts m 0x90"
  by (simp add: matcher_accepts_def int_base16_def hex_digit_def)

lemma status_pattern_ends:
  "\<forall>m\<in>set (split_space ''83 78 10 02 74 10''). \<not> matcher_accepts m 0xB8 \<and> \<not> matcher_accepts m 0x90"
  by (simp add: matcher_accepts_def int_base16_def hex_digit_def)

lemma raid_site_kept:
  assumes s: "length s = 4" and rb: "length rb = 4"
      and site: "h + 6 \<le> length B" "take 6 (drop h B) = [0xB8] @ s @ [0x90]"
  shows "h + 6 \<le> length (patch_once B ''8B 81 C4 53 1D 00'' ([0xB8] @ rb @ [0x90])) \<and>
         take 6 (drop h (patch_once B ''8B 81 C4 53 1D 00'' ([0xB8] @ rb @ [0x90]))) =
           [0xB8] @ s @ [0x90]"
    and "h + 6 \<le> length (patch_once B ''66 0F 73 DA 08 66 41 0F 7E 50 04 F2 0F 11 4C''
                          ([0x41, 0xC7, 0x40, 0x04] @ rb @ [0x90, 0x90, 0x90])) \<and>
         take 6 (drop h (patch_once B ''66 0F 73 DA 08 66 41 0F 7E 50 04 F2 0F 11 4C''
                          ([0x41, 0xC7, 0x40, 0x04] @ rb @ [0x90, 0x90, 0x90]))) =
           [0xB8] @ s @ [0x90]"
    and "h + 6 \<le> length (patch_once B ''83 78 10 02 74 10'' [0x39, 0xC0, 0x90, 0x90]) \<and>
         take 6 (drop h (patch_once B ''83 78 10 02 74 10'' [0x39, 0xC0, 0x90, 0x90])) =
           [0xB8] @ s @ [0x90]"
proof -
  let ?S = "[0xB8] @ s @ [0x90] :: byte list"
  have l: "length ?S = 6" using s by simp
  have e: "hd ?S = 0xB8" "last ?S = 0x90" by simp_all
  have site': "h + length ?S \<le> length B" "take (length ?S) (drop h B) = ?S"
    using site l by simp_all
  have n: "length (split_space ''8B 81 C4 53 1D 00'') = 6"
          "length (split_space ''66 0F 73 DA 08 66 41 0F 7E 50 04 F2 0F 11 4C'') = 15"
          "length (split_space ''83 78 10 02 74 10'') = 6"
    by simp_all
  show "h + 6 \<le> length (patch_once B ''8B 81 C4 53 1D 00'' ([0xB8] @ rb @ [0x90])) \<and>
         take 6 (drop h (patch_once B ''8B 81 C4 53 1D 00'' ([0xB8] @ rb @ [0x90]))) = ?S"
    using patch_once_keeps_site [of "[0xB8] @ rb @ [0x90]" "''8B 81 C4 53 1D 00''" h ?S B,
            OF _ site']
          get_pattern_ends rb
    unfolding l e n by simp
  show "h + 6 \<le> length (patch_once B ''66 0F 73 DA 08 66 41 0F 7E 50 04 F2 0F 11 4C''
                          ([0x41, 0xC7, 0x40, 0x04] @ rb @ [0x90, 0x90, 0x90])) \<and>
         take 6 (drop h (patch_once B ''66 0F 73 DA 08 66 41 0F 7E 50 04 F2 0F 11 4C''
                          ([0x41, 0xC7, 0x40, 0x04] @ rb @ [0x90, 0x90, 0x90]))) = ?S"
    using patch_once_keeps_site [of "[0x41, 0xC7, 0x40, 0x04] @ rb @ [0x90, 0x90, 0x90]"
            "''66 0F 73 DA 08 66 41 0F 7E 50 04 F2 0F 11 4C''" h ?S B, OF _ site']
          set_pattern_ends rb
    unfolding l e n by simp
  show "h + 6 \<le> length (patch_once B ''83 78 10 02 74 10'' [0x39, 0xC0, 0x90, 0x90]) \<and>
         take 6 (drop h (patch_once B ''83 78 10 02 74 10'' [0x39, 0xC0, 0x90, 0x90])) = ?S"
    using patch_once_keeps_site [of "[0x39, 0xC0, 0x90, 0x90]" "''83 78 10 02 74 10''" h ?S B,
            OF _ site']
          status_pattern_ends
    unfolding l e n by simp
qed

lemma raid_site_written:
  assumes "first_match B ''8B 81 C4 53 1D 00'' = Some g" and rb: "length rb = 4"
  shows "g + 6 \<le> length (patch_once B ''8B 81 C4 53 1D 00'' ([0xB8] @ rb @ [0x90])) \<and>
         take 6 (drop g (patch_once B ''8B 81 C4 53 1D 00'' ([0xB8] @ rb @ [0x90]))) =
           [0xB8] @ rb @ [0x90]"
proof -
  have n: "length (split_space ''8B 81 C4 53 1D 00'') = 6" by simp
  from first_match_Some [OF assms(1)] have inside: "g + 6 \<le> length B" unfolding n by simp
  then have gl: "g \<le> length B" by simp
  have B': "patch_once B ''8B 81 C4 53 1D 00'' ([0xB8] @ rb @ [0x90]) =
            assign_slice B g ([0xB8] @ rb @ [0x90])"
    using assms(1) by (simp add: patch_once_def)
  from assign_slice_frame(2,4) [OF gl, of "[0xB8] @ rb @ [0x90]"] inside rb
  show ?thesis unfolding B' by (simp add: max_def)
qed


lemma to_bytes4_length: "to_bytes4 x = Inr rb \<Longrightarrow> length rb = 4"
  by (auto simp: to_bytes4_def split: if_splits)

lemma from_bytes_to_bytes:
  assumes a: "to_bytes4 x = Inr rb"
  shows "from_bytes_le rb = x"
proof -
  from a have r: "0 \<le> x" "x < 4294967296"
    and rb: "rb = [word_of_int (x mod 256), word_of_int (x div 256 mod 256),
                   word_of_int (x div 65536 mod 256), word_of_int (x div 16777216 mod 256)]"
    by (auto simp: to_bytes4_def split: if_splits)
  have u: "uint (word_of_int (k mod 256) :: byte) = k mod 256" for k :: int
    by (simp add: uint_word_of_int take_bit_eq_mod)
  define b where "b = x div 256"
  define c where "c = b div 256"
  define d where "d = c div 256"
  have x2: "x div 65536 = c"
    using zdiv_zmult2_eq [of 256 x 256] by (simp add: b_def c_def)
  have x3: "x div 16777216 = d"
    using zdiv_zmult2_eq [of 256 x 65536] x2 by (simp add: d_def)
  have "d < 256" using r(2) unfolding x3 [symmetric] by simp
  moreover have "0 \<le> d" using r(1) unfolding x3 [symmetric] by simp
  ultimately have dm: "d mod 256 = d" by simp
  have e1: "x = x mod 256 + 256 * b" by (simp add: b_def)
  have e2: "b = b mod 256 + 256 * c" by (simp add: c_def)
  have e3: "c = c mod 256 + 256 * d" by (simp add: d_def)
  have "from_bytes_le rb = x mod 256 + 256 * (b mod 256 + 256 * (c mod 256 + 256 * d))"
    unfolding rb from_bytes_le.simps u x2 x3 b_def [symmetric] using u [of d] dm by simp
  also have "\<dots> = x" using e1 e2 e3 by simp
  finally show ?thesis .
qed

text \<open>
  What a successful call leaves behind: the file holds the instruction
  \<^verbatim>\<open>B8 v v v v 90\<close> with the bytes of the parameter at the offset reported for
  \<^verbatim>\<open>get_raid\<close>, and every such instruction that the file held before the call is
  still there.
\<close>

lemma patch_success_sites:
  assumes run: "patch_executable f x = (Inr res, f')" and ok: "success res"
  shows "\<exists>B C rb g.
           read_bytes f = Inr B \<and> read_bytes f' = Inr C \<and> content f' = C \<and>
           path_exists f' = Inr True \<and>
           to_bytes4 x = Inr rb \<and> length rb = 4 \<and>
           map_of (offsets res) ''get_raid'' = Some (int g) \<and>
           g + 6 \<le> length C \<and> take 6 (drop g C) = [0xB8] @ rb @ [0x90] \<and>
           (\<forall>h s. length s = 4 \<longrightarrow> h + 6 \<le> length B \<longrightarrow>
                  take 6 (drop h B) = [0xB8] @ s @ [0x90] \<longrightarrow>
                  h + 6 \<le> length C \<and> take 6 (drop h C) = [0xB8] @ s @ [0x90])"
proof -
  obtain B where rd: "read_bytes f = Inr B"
    using run by (cases "read_bytes f") (simp_all add: patch_executable_def)
  obtain rb where tb: "to_bytes4 x = Inr rb"
    using run rd
    by (cases "to_bytes4 x") (simp_all add: patch_executable_def create_raid_patches_def)
  have rbl: "length rb = 4" using tb by (rule to_bytes4_length)
  define B1 where "B1 = patch_once B ''8B 81 C4 53 1D 00'' ([0xB8] @ rb @ [0x90])"
  define B2 where "B2 = patch_once B1 ''66 0F 73 DA 08 66 41 0F 7E 50 04 F2 0F 11 4C''
                 ([0x41, 0xC7, 0x40, 0x04] @ rb @ [0x90, 0x90, 0x90])"
  define B3 where "B3 = patch_once B2 ''83 78 10 02 74 10'' [0x39, 0xC0, 0x90, 0x90]"
  define o1 where "o1 = first_match B ''8B 81 C4 53 1D 00''"
  define o2 where "o2 = first_match B1 ''66 0F 73 DA 08 66 41 0F 7E 50 04 F2 0F 11 4C''"
  define o3 where "o3 = first_match B2 ''83 78 10 02 74 10''"
  define res0 where "res0 =
     \<lparr>success = list_all (\<lambda>(n, v). v \<noteq> None)
                      [(''get_raid'', o1), (''set_raid'', o2), (''raid_status'', o3)],
          offsets = [(n, int i). (n, Some i) \<leftarrow>
                      [(''get_raid'', o1), (''set_raid'', o2), (''raid_status'', o3)]],
          errors = [n @ '' pattern scan failed''. (n, None) \<leftarrow>
                      [(''get_raid'', o1), (''set_raid'', o2), (''raid_status'', o3)]]\<rparr>"
  have closed: "patch_executable f x =
          (if success res0 then
             (case write_bytes f B3 of
                (Inl e, left) \<Rightarrow> (Inl (PatchError ''Cannot write executable'' e), left)
              | (Inr u, written) \<Rightarrow> (Inr res0, written))
           else (Inr res0, f))"
    using patch_executable_run [OF rd tb]
    unfolding Let_def res0_def o1_def o2_def o3_def B3_def B2_def B1_def .
  have s0: "success res0"
  proof (rule ccontr)
    assume "\<not> success res0"
    with closed run have "res = res0" by simp
    with ok \<open>\<not> success res0\<close> show False by simp
  qed
  obtain w where w: "write_bytes f B3 = (Inr (), w)" and res: "res = res0" and f': "f' = w"
    using closed run s0 by (cases "write_bytes f B3") (auto split: sum.splits)
  have fr: "reachable f" "present f" "can_read f" "content f = B"
    using rd by (auto simp: read_bytes_def split: if_splits)
  have wf: "w = f\<lparr>present := True, content := B3\<rparr>"
    using w by (auto simp: write_bytes_def split: if_splits option.splits)
  have rd': "read_bytes f' = Inr B3" "content f' = B3" "path_exists f' = Inr True"
    unfolding f' wf using fr by (simp_all add: read_bytes_def path_exists_def)
  from s0 obtain g where g: "o1 = Some g"
    by (cases o1) (simp_all add: res0_def)
  have off: "map_of (offsets res) ''get_raid'' = Some (int g)"
    unfolding res res0_def g by simp
  have site1: "g + 6 \<le> length B1 \<and> take 6 (drop g B1) = [0xB8] @ rb @ [0x90]"
    unfolding B1_def using g [unfolded o1_def] rbl by (rule raid_site_written)
  have keep: "h + 6 \<le> length B3 \<and> take 6 (drop h B3) = [0xB8] @ s @ [0x90]"
    if s: "length s = 4" and h: "h + 6 \<le> length B1 \<and> take 6 (drop h B1) = [0xB8] @ s @ [0x90]"
    for h s
  proof -
    have "h + 6 \<le> length B2 \<and> take 6 (drop h B2) = [0xB8] @ s @ [0x90]"
      unfolding B2_def using h by (intro raid_site_kept(2) [OF s rbl]) simp_all
    then show ?thesis
      unfolding B3_def by (intro raid_site_kept(3) [OF s rbl]) simp_all
  qed
  have old: "h + 6 \<le> length B3 \<and> take 6 (drop h B3) = [0xB8] @ s @ [0x90]"
    if s: "length s = 4" and h: "h + 6 \<le> length B" "take 6 (drop h B) = [0xB8] @ s @ [0x90]"
    for h s
  proof -
    have "h + 6 \<le> length B1 \<and> take 6 (drop h B1) = [0xB8] @ s @ [0x90]"
      unfolding B1_def using h by (intro raid_site_kept(1) [OF s rbl])
    with s show ?thesis by (rule keep)
  qed
  from keep [OF rbl site1] have site3: "g + 6 \<le> length B3" "take 6 (drop g B3) = [0xB8] @ rb @ [0x90]"
    by simp_all
  show ?thesis
    using rd rd' tb rbl off site3 old by blast
qed

lemma verify_patch_site:
  assumes "read_bytes f = Inr C" and "to_bytes4 x = Inr rb" and "length rb = 4"
      and "take 6 (drop g C) = [0xB8] @ rb @ [0x90]"
  shows "verify_patch f x"
proof -
  have "take (length ([0xB8] @ rb @ [0x90])) (drop g C) = [0xB8] @ rb @ [0x90]"
    using assms(3,4) by simp
  then have "bytes_contains ([0xB8] @ rb @ [0x90]) C" by (rule occurs_contains)
  then show ?thesis
    using assms(1,2) by (simp add: verify_patch_def verify_body_def)
qed

text \<open>
  Claim C8 says that, after a successful call with parameter \<open>X\<close> and a later
  successful call with another parameter \<open>Y\<close> on the same file, \<^verbatim>\<open>verify_patch\<close> for
  \<open>X\<close> returns \<^verbatim>\<open>False\<close>. On a file that holds the three original sequences twice,
  the call with 1 patches the first copy, the call with 2 patches the second copy,
  and \<^verbatim>\<open>verify_patch\<close> for 1 still returns \<^verbatim>\<open>True\<close>: the instruction
  \<^verbatim>\<open>B8 01 00 00 00 90\<close> is still at offset 0.
\<close>

theorem verify_patch_earlier_parameter_counterexample:
  "patch_executable (on_disk (clean_exe @ clean_exe)) 1 =
     (Inr \<lparr>success = True,
           offsets = [(''get_raid'', 0), (''set_raid'', 6), (''raid_status'', 21)],
           errors = []\<rparr>,
      on_disk ([0xB8, 0x01, 0x00, 0x00, 0x00, 0x90,
                0x41, 0xC7, 0x40, 0x04, 0x01, 0x00, 0x00, 0x00, 0x90, 0x90, 0x90,
                0xF2, 0x0F, 0x11, 0x4C,
                0x39, 0xC0, 0x90, 0x90, 0x74, 0x10] @ clean_exe)) \<and>
   patch_executable
     (on_disk ([0xB8, 0x01, 0x00, 0x00, 0x00, 0x90,
                0x41, 0xC7, 0x40, 0x04, 0x01, 0x00, 0x00, 0x00, 0x90, 0x90, 0x90,
                0xF2, 0x0F, 0x11, 0x4C,
                0x39, 0xC0, 0x90, 0x90, 0x74, 0x10] @ clean_exe)) 2 =
     (Inr \<lparr>success = True,
           offsets = [(''get_raid'', 27), (''set_raid'', 33), (''raid_status'', 48)],
           errors = []\<rparr>,
      on_disk [0xB8, 0x01, 0x00, 0x00, 0x00, 0x90,
               0x41, 0xC7, 0x40, 0x04, 0x01, 0x00, 0x00, 0x00, 0x90, 0x90, 0x90,
               0xF2, 0x0F, 0x11, 0x4C,
               0x39, 0xC0, 0x90, 0x90, 0x74, 0x10,
               0xB8, 0x02, 0x00, 0x00, 0x00, 0x90,
               0x41, 0xC7, 0x40, 0x04, 0x02, 0x00, 0x00, 0x00, 0x90, 0x90, 0x90,
               0xF2, 0x0F, 0x11, 0x4C,
               0x39, 0xC0, 0x90, 0x90, 0x74, 0x10]) \<and>
   verify_patch
     (on_disk [0xB8, 0x01, 0x00, 0x00, 0x00, 0x90,
               0x41, 0xC7, 0x40, 0x04, 0x01, 0x00, 0x00, 0x00, 0x90, 0x90, 0x90,
               0xF2, 0x0F, 0x11, 0x4C,
               0x39, 0xC0, 0x90, 0x90, 0x74, 0x10,
               0xB8, 0x02, 0x00, 0x00, 0x00, 0x90,
               0x41, 0xC7, 0x40, 0x04, 0x02, 0x00, 0x00, 0x00, 0x90, 0x90, 0x90,
               0xF2, 0x0F, 0x11, 0x4C,
               0x39, 0xC0, 0x90, 0x90, 0x74, 0x10]) 1 = True"
  by code_simp

text \<open>
  Claim C8, as the code has it. After a successful call with parameter \<open>X\<close>,
  \<^verbatim>\<open>verify_patch\<close> for \<open>X\<close> returns \<^verbatim>\<open>True\<close> on the written file. After any later
  successful call with a parameter \<open>Y\<close> on that file, \<^verbatim>\<open>verify_patch\<close> returns
  \<^verbatim>\<open>True\<close> for \<open>Y\<close> and still returns \<^verbatim>\<open>True\<close> for \<open>X\<close>: no patch overwrites an
  instruction written by \<^verbatim>\<open>get_raid\<close>.
\<close>

theorem verify_patch_after_patches:
  assumes "patch_executable f x = (Inr res, f')" and "success res"
  shows "verify_patch f' x \<and>
         (\<forall>y res' f''. patch_executable f' y = (Inr res', f'') \<longrightarrow> success res' \<longrightarrow>
            verify_patch f'' y \<and> verify_patch f'' x)"
proof -
  from patch_success_sites [OF assms] obtain B C rb g where
    first: "read_bytes f' = Inr C" "to_bytes4 x = Inr rb" "length rb = 4"
           "g + 6 \<le> length C" "take 6 (drop g C) = [0xB8] @ rb @ [0x90]"
    by blast
  have now: "verify_patch f' x"
    using first(1,2,3,5) by (rule verify_patch_site)
  have later: "verify_patch f'' y \<and> verify_patch f'' x"
    if run: "patch_executable f' y = (Inr res', f'')" and ok: "success res'" for y res' f''
  proof -
    from patch_success_sites [OF run ok] obtain B' C' rb' g' where
      second: "read_bytes f' = Inr B'" "read_bytes f'' = Inr C'" "to_bytes4 y = Inr rb'"
              "length rb' = 4" "take 6 (drop g' C') = [0xB8] @ rb' @ [0x90]"
      and kept: "\<forall>h s. length s = 4 \<longrightarrow> h + 6 \<le> length B' \<longrightarrow>
                  take 6 (drop h B') = [0xB8] @ s @ [0x90] \<longrightarrow>
                  h + 6 \<le> length C' \<and> take 6 (drop h C') = [0xB8] @ s @ [0x90]"
      by blast
    have "B' = C" using first(1) second(1) by simp
    with kept first(3,4,5) have "take 6 (drop g C') = [0xB8] @ rb @ [0x90]" by blast
    with second(2) first(2,3) have "verify_patch f'' x" by (rule verify_patch_site)
    moreover have "verify_patch f'' y" using second(2,3,4,5) by (rule verify_patch_site)
    ultimately show ?thesis by simp
  qed
  from now later show ?thesis by blast
qed

theorem verify_patch_after_patches_witness:
  "patch_executable (on_disk (clean_exe @ clean_exe)) 7 =
     (Inr \<lparr>success = True,
           offsets = [(''get_raid'', 0), (''set_raid'', 6), (''raid_status'', 21)],
           errors = []\<rparr>,
      on_disk ([0xB8, 0x07, 0x00, 0x00, 0x00, 0x90,
                0x41, 0xC7, 0x40, 0x04, 0x07, 0x00, 0x00, 0x00, 0x90, 0x90, 0x90,
                0xF2, 0x0F, 0x11, 0x4C,
                0x39, 0xC0, 0x90, 0x90, 0x74, 0x10] @ clean_exe)) \<and>
   verify_patch
     (on_disk ([0xB8, 0x07, 0x00, 0x00, 0x00, 0x90,
                0x41, 0xC7, 0x40, 0x04, 0x07, 0x00, 0x00, 0x00, 0x90, 0x90, 0x90,
                0xF2, 0x0F, 0x11, 0x4C,
                0x39, 0xC0, 0x90, 0x90, 0x74, 0x10] @ clean_exe)) 7 \<and>
   patch_executable
     (on_disk ([0xB8, 0x07, 0x00, 0x00, 0x00, 0x90,
                0x41, 0xC7, 0x40, 0x04, 0x07, 0x00, 0x00, 0x00, 0x90, 0x90, 0x90,
                0xF2, 0x0F, 0x11, 0x4C,
                0x39, 0xC0, 0x90, 0x90, 0x74, 0x10] @ clean_exe)) 9 =
     (Inr \<lparr>success = True,
           offsets = [(''get_raid'', 27), (''set_raid'', 33), (''raid_status'', 48)],
           errors = []\<rparr>,
      on_disk [0xB8, 0x07, 0x00, 0x00, 0x00, 0x90,
               0x41, 0xC7, 0x40, 0x04, 0x07, 0x00, 0x00, 0x00, 0x90, 0x90, 0x90,
               0xF2, 0x0F, 0x11, 0x4C,
               0x39, 0xC0, 0x90, 0x90, 0x74, 0x10,
               0xB8, 0x09, 0x00, 0x00, 0x00, 0x90,
               0x41, 0xC7, 0x40, 0x04, 0x09, 0x00, 0x00, 0x00, 0x90, 0x90, 0x90,
               0xF2, 0x0F, 0x11, 0x4C,
               0x39, 0xC0, 0x90, 0x90, 0x74, 0x10]) \<and>
   verify_patch
     (on_disk [0xB8, 0x07, 0x00, 0x00, 0x00, 0x90,
               0x41, 0xC7, 0x40, 0x04, 0x07, 0x00, 0x00, 0x00, 0x90, 0x90, 0x90,
               0xF2, 0x0F, 0x11, 0x4C,
               0x39, 0xC0, 0x90, 0x90, 0x74, 0x10,
               0xB8, 0x09, 0x00, 0x00, 0x00, 0x90,
               0x41, 0xC7, 0x40, 0x04, 0x09, 0x00, 0x00, 0x00, 0x90, 0x90, 0x90,
               0xF2, 0x0F, 0x11, 0x4C,
               0x39, 0xC0, 0x90, 0x90, 0x74, 0x10]) 9 \<and>
   verify_patch
     (on_disk [0xB8, 0x07, 0x00, 0x00, 0x00, 0x90,
               0x41, 0xC7, 0x40, 0x04, 0x07, 0x00, 0x00, 0x00, 0x90, 0x90, 0x90,
               0xF2, 0x0F, 0x11, 0x4C,
               0x39, 0xC0, 0x90, 0x90, 0x74, 0x10,
               0xB8, 0x09, 0x00, 0x00, 0x00, 0x90,
               0x41, 0xC7, 0x40, 0x04, 0x09, 0x00, 0x00, 0x00, 0x90, 0x90, 0x90,
               0xF2, 0x0F, 0x11, 0x4C,
               0x39, 0xC0, 0x90, 0x90, 0x74, 0x10]) 7"
proof -
  let ?r1 = "\<lparr>success = True,
           offsets = [(''get_raid'', 0), (''set_raid'', 6), (''raid_status'', 21)],
           errors = []\<rparr>"
  let ?r2 = "\<lparr>success = True,
           offsets = [(''get_raid'', 27), (''set_raid'', 33), (''raid_status'', 48)],
           errors = []\<rparr>"
  let ?f1 = "on_disk ([0xB8, 0x07, 0x00, 0x00, 0x00, 0x90,
                0x41, 0xC7, 0x40, 0x04, 0x07, 0x00, 0x00, 0x00, 0x90, 0x90, 0x90,
                0xF2, 0x0F, 0x11, 0x4C,
                0x39, 0xC0, 0x90, 0x90, 0x74, 0x10] @ clean_exe)"
  let ?f2 = "on_disk [0xB8, 0x07, 0x00, 0x00, 0x00, 0x90,
               0x41, 0xC7, 0x40, 0x04, 0x07, 0x00, 0x00, 0x00, 0x90, 0x90, 0x90,
               0xF2, 0x0F, 0x11, 0x4C,
               0x39, 0xC0, 0x90, 0x90, 0x74, 0x10,
               0xB8, 0x09, 0x00, 0x00, 0x00, 0x90,
               0x41, 0xC7, 0x40, 0x04, 0x09, 0x00, 0x00, 0x00, 0x90, 0x90, 0x90,
               0xF2, 0x0F, 0x11, 0x4C,
               0x39, 0xC0, 0x90, 0x90, 0x74, 0x10]"
  have p1: "patch_executable (on_disk (clean_exe @ clean_exe)) 7 = (Inr ?r1, ?f1)"
    by code_simp
  have p2: "patch_executable ?f1 9 = (Inr ?r2, ?f2)"
    by code_simp
  have s1: "success ?r1" and s2: "success ?r2" by simp_all
  from verify_patch_after_patches [OF p1 s1] p2 s2
  have "verify_patch ?f1 7 \<and> verify_patch ?f2 9 \<and> verify_patch ?f2 7" by blast
  with p1 p2 show ?thesis by (intro conjI) simp_all
qed

section \<open>The detection scan after a patch\<close>

lemma detect_loop_find:
  "\<forall>i\<in>set offs. i + 5 < length exe \<Longrightarrow>
   detect_loop exe offs = Inr (map_option (window_value exe) (find (marked exe) offs))"
  by (induction offs) (simp_all add: marked_def window_value_def Let_def)

lemma site_bytes:
  assumes rb: "length rb = 4" and inside: "g + 6 \<le> length C"
      and site: "take 6 (drop g C) = [0xB8] @ rb @ [0x90]"
  shows "C ! g = 0xB8" and "C ! (g + 5) = 0x90" and "take 4 (drop (g + 1) C) = rb"
proof -
  have n: "C ! (g + k) = ([0xB8] @ rb @ [0x90]) ! k" if "k < 6" for k
  proof -
    have "([0xB8] @ rb @ [0x90]) ! k = take 6 (drop g C) ! k" using site by simp
    also have "\<dots> = C ! (g + k)" using that inside by simp
    finally show ?thesis by simp
  qed
  from n [of 0] show "C ! g = 0xB8" by simp
  from n [of 5] rb show "C ! (g + 5) = 0x90" by (simp add: nth_append)
  have "take 4 (drop (g + 1) C) = take 4 (drop 1 (take 6 (drop g C)))"
    by (simp add: drop_take)
  also have "\<dots> = rb" unfolding site using rb by simp
  finally show "take 4 (drop (g + 1) C) = rb" .
qed

text \<open>
  Claim C4 says that \<^verbatim>\<open>detect_current_patch\<close> returns the parameter of a successful
  call. On a file that holds the instruction \<^verbatim>\<open>B8 01 00 00 00 90\<close> before the three
  original sequences, the call with 2 succeeds and writes \<^verbatim>\<open>B8 02 00 00 00 90\<close> at
  offset 6, and \<^verbatim>\<open>detect_current_patch\<close> on the written file returns 1, the value of
  the window at offset 0.
\<close>

theorem detect_earlier_window_counterexample:
  "patch_executable (on_disk ([0xB8, 0x01, 0x00, 0x00, 0x00, 0x90] @ clean_exe)) 2 =
     (Inr \<lparr>success = True,
           offsets = [(''get_raid'', 6), (''set_raid'', 12), (''raid_status'', 27)],
           errors = []\<rparr>,
      on_disk [0xB8, 0x01, 0x00, 0x00, 0x00, 0x90,
               0xB8, 0x02, 0x00, 0x00, 0x00, 0x90,
               0x41, 0xC7, 0x40, 0x04, 0x02, 0x00, 0x00, 0x00, 0x90, 0x90, 0x90,
               0xF2, 0x0F, 0x11, 0x4C,
               0x39, 0xC0, 0x90, 0x90, 0x74, 0x10]) \<and>
   detect_current_patch
     (on_disk [0xB8, 0x01, 0x00, 0x00, 0x00, 0x90,
               0xB8, 0x02, 0x00, 0x00, 0x00, 0x90,
               0x41, 0xC7, 0x40, 0x04, 0x02, 0x00, 0x00, 0x00, 0x90, 0x90, 0x90,
               0xF2, 0x0F, 0x11, 0x4C,
               0x39, 0xC0, 0x90, 0x90, 0x74, 0x10]) = Inr (Some 1)"
  by code_simp

text \<open>
  Claim C4, as the code has it. After a successful call with a parameter \<open>X\<close> from
  1 to 38, the written file holds an accepted window with value \<open>X\<close> at the offset
  \<open>g\<close> reported for \<^verbatim>\<open>get_raid\<close>, and \<^verbatim>\<open>detect_current_patch\<close> returns the value of the
  leftmost accepted window, which starts at \<open>g\<close> or before it. So it returns \<open>X\<close>
  when no accepted window starts before \<open>g\<close>.
\<close>

theorem detect_after_patch:
  assumes "patch_executable f x = (Inr res, f')" and "success res"
      and "1 \<le> x" and "x \<le> 38"
  shows "\<exists>g k. map_of (offsets res) ''get_raid'' = Some (int g) \<and>
           g + 6 \<le> length (content f') \<and>
           marked (content f') g \<and> window_value (content f') g = x \<and>
           k \<le> g \<and> marked (content f') k \<and> (\<forall>j<k. \<not> marked (content f') j) \<and>
           detect_current_patch f' = Inr (Some (window_value (content f') k)) \<and>
           ((\<forall>j<g. \<not> marked (content f') j) \<longrightarrow> detect_current_patch f' = Inr (Some x))"
proof -
  from patch_success_sites [OF assms(1,2)] obtain B C rb g where
    rd: "read_bytes f' = Inr C" and c: "content f' = C" and ex: "path_exists f' = Inr True"
    and tb: "to_bytes4 x = Inr rb" and rb: "length rb = 4"
    and off: "map_of (offsets res) ''get_raid'' = Some (int g)"
    and inside: "g + 6 \<le> length C" and site: "take 6 (drop g C) = [0xB8] @ rb @ [0x90]"
    by blast
  have val: "window_value C g = x"
    using site_bytes(3) [OF rb inside site] from_bytes_to_bytes [OF tb]
    by (simp add: window_value_def)
  have mg: "marked C g"
    using site_bytes(1,2) [OF rb inside site] val assms(3,4) by (simp add: marked_def)
  define n where "n = nat (int (length C) - 5)"
  have gn: "g < n" using inside by (simp add: n_def)
  have "\<forall>i\<in>set [0 ..< n]. i + 5 < length C" by (auto simp: n_def)
  from detect_loop_find [OF this]
  have loop: "detect_loop C [0 ..< n] =
              Inr (map_option (window_value C) (find (marked C) [0 ..< n]))" .
  obtain k where k: "find (marked C) [0 ..< n] = Some k"
    using find_upt_None [of "marked C" n g] gn mg by (cases "find (marked C) [0 ..< n]") auto
  from find_upt_Some [OF k] have kp: "k < n" "marked C k" "\<forall>j<k. \<not> marked C j" by simp_all
  have kg: "k \<le> g"
  proof (rule ccontr)
    assume "\<not> k \<le> g"
    then have "g < k" by simp
    with kp(3) mg show False by blast
  qed
  have det: "detect_current_patch f' = Inr (Some (window_value C k))"
    using rd ex loop k
    by (simp add: detect_current_patch_def detect_body_def n_def)
  have only: "detect_current_patch f' = Inr (Some x)" if "\<forall>j<g. \<not> marked C j"
  proof -
    have "k = g" using that kg kp(2) by (cases "k = g") auto
    with det val show ?thesis by simp
  qed
  show ?thesis
    unfolding c
    using off inside mg val kg kp(2,3) det only by blast
qed

theorem detect_after_patch_witness:
  "patch_executable (on_disk clean_exe) 7 =
     (Inr \<lparr>success = True,
           offsets = [(''get_raid'', 0), (''set_raid'', 6), (''raid_status'', 21)],
           errors = []\<rparr>,
      on_disk [0xB8, 0x07, 0x00, 0x00, 0x00, 0x90,
               0x41, 0xC7, 0x40, 0x04, 0x07, 0x00, 0x00, 0x00, 0x90, 0x90, 0x90,
               0xF2, 0x0F, 0x11, 0x4C,
               0x39, 0xC0, 0x90, 0x90, 0x74, 0x10]) \<and>
   (1::int) \<le> 7 \<and> (7::int) \<le> 38 \<and>
   detect_current_patch
     (on_disk [0xB8, 0x07, 0x00, 0x00, 0x00, 0x90,
               0x41, 0xC7, 0x40, 0x04, 0x07, 0x00, 0x00, 0x00, 0x90, 0x90, 0x90,
               0xF2, 0x0F, 0x11, 0x4C,
               0x39, 0xC0, 0x90, 0x90, 0x74, 0x10]) = Inr (Some 7)"
proof -
  let ?r = "\<lparr>success = True,
           offsets = [(''get_raid'', 0), (''set_raid'', 6), (''raid_status'', 21)],
           errors = []\<rparr>"
  let ?f = "on_disk [0xB8, 0x07, 0x00, 0x00, 0x00, 0x90,
               0x41, 0xC7, 0x40, 0x04, 0x07, 0x00, 0x00, 0x00, 0x90, 0x90, 0x90,
               0xF2, 0x0F, 0x11, 0x4C,
               0x39, 0xC0, 0x90, 0x90, 0x74, 0x10]"
  have p: "patch_executable (on_disk clean_exe) 7 = (Inr ?r, ?f)" by code_simp
  have s: "success ?r" and h1: "(1::int) \<le> 7" and h2: "(7::int) \<le> 38" by simp_all
  from detect_after_patch [OF p s h1 h2] obtain g where
    g: "map_of (offsets ?r) ''get_raid'' = Some (int g)"
    and only: "(\<forall>j<g. \<not> marked (content ?f) j) \<longrightarrow> detect_current_patch ?f = Inr (Some 7)"
    by blast
  from g have "g = 0" by simp
  with only have "detect_current_patch ?f = Inr (Some 7)" by simp
  with p h1 h2 show ?thesis by (intro conjI)
qed

end
